theory Spec2Isabelle
  imports Main "HOL-Library.Word"
begin

unbundle bit_operations_syntax

section \<open>Data model of \<^verbatim>\<open>srctools/_cy_vtf_readwrite.pyx\<close>\<close>

text \<open>
  The module is Cython: \<^verbatim>\<open>byte\<close> is \<^verbatim>\<open>uint8_t\<close>, \<^verbatim>\<open>uint\<close> is the C
  \<^verbatim>\<open>unsigned int\<close> (32 bits), offsets are \<^verbatim>\<open>Py_ssize_t\<close>.  Buffers
  (\<^verbatim>\<open>byte[::1]\<close> memoryviews) are byte lists; a function that writes into a buffer
  returns the updated buffer.  Products of the dimensions computed in \<^verbatim>\<open>unsigned int\<close>
  are products of 32-bit words and wrap around; offsets, which the source computes in the
  64-bit \<^verbatim>\<open>Py_ssize_t\<close>, are natural numbers.  Expressions over bytes are promoted to
  \<^verbatim>\<open>int\<close> by C: sums are therefore taken over the naturals, while the bitwise
  expressions, each of which is stored into a byte, are computed on 8-bit words (every right
  shift of the source is applied to a byte value, so the truncation commutes).

  The module is compiled with \<^verbatim>\<open>boundscheck=False\<close>: an access outside a buffer is
  undefined in the source.  The theorems below therefore assume buffers of the length that
  the format requires.  \<^verbatim>\<open>prange\<close> iterations are independent of each other and are
  run here in increasing order.
\<close>

type_synonym byte = "8 word"
type_synonym uint = "32 word"

datatype py_error =
    NotImplementedError string
  | AssertionError
  | ValueError
  | OverflowError
  | UnicodeEncodeError

text \<open>The offsets of the colour channels (\<^verbatim>\<open>DEF R = 0\<close> ...).\<close>

definition R :: nat where "R = 0"
definition G :: nat where "G = 1"
definition B :: nat where "B = 2"
definition A :: nat where "A = 3"

text \<open>\<^verbatim>\<open>prange(n)\<close> and \<^verbatim>\<open>range(0, stop, step)\<close>.\<close>

definition prange :: "nat \<Rightarrow> nat list" where
  "prange n = [0..<n]"

definition range_step :: "nat \<Rightarrow> nat \<Rightarrow> nat list" where
  "range_step stop step = map (\<lambda>k. step * k) [0..<(stop + step - 1) div step]"

text \<open>The C library's \<^verbatim>\<open>memcpy\<close> and \<^verbatim>\<open>memset\<close> on the start of a buffer.\<close>

definition memcpy :: "byte list \<Rightarrow> byte list \<Rightarrow> nat \<Rightarrow> byte list" where
  "memcpy dst src n = take n src @ drop n dst"

definition memset :: "byte list \<Rightarrow> byte \<Rightarrow> nat \<Rightarrow> byte list" where
  "memset dst c n = replicate n c @ drop n dst"

section \<open>Bit helpers\<close>

datatype RGB = RGB byte byte byte

definition upsample :: "nat \<Rightarrow> byte \<Rightarrow> byte" where
  "upsample bits data = data OR (drop_bit bits data)"

definition decomp565 :: "byte \<Rightarrow> byte \<Rightarrow> RGB" where
  "decomp565 a b = RGB
     (upsample 5 (push_bit 3 (a AND 0x1F)))
     (upsample 6 (push_bit 5 (b AND 0x07) OR drop_bit 3 (a AND 0xE0)))
     (upsample 5 (b AND 0xF8))"

definition compress565 :: "byte \<Rightarrow> byte \<Rightarrow> byte \<Rightarrow> byte \<times> byte" where
  "compress565 r g b =
     ((push_bit 3 g AND 0xE0) OR drop_bit 3 b,
      (r AND 0xF8) OR drop_bit 5 g)"

section \<open>Per-format codecs\<close>

text \<open>
  Every codec has the C signature \<^verbatim>\<open>(pixels, data, width, height)\<close>.  A loader writes
  \<^verbatim>\<open>pixels\<close> and returns it; a saver writes \<^verbatim>\<open>data\<close> and returns it.
\<close>

type_synonym codec = "byte list \<Rightarrow> byte list \<Rightarrow> uint \<Rightarrow> uint \<Rightarrow> byte list"

definition load_copy :: codec where
  "load_copy pixels data width height = memcpy pixels data (unat (4 * width * height))"

definition save_copy :: codec where
  "save_copy pixels data width height = memcpy data pixels (unat (4 * width * height))"

definition load_bgra8888 :: codec where
  "load_bgra8888 pixels data width height =
     fold (\<lambda>offset pixels. pixels
        [4 * offset + B := data ! (4 * offset + 0),
         4 * offset + G := data ! (4 * offset + 1),
         4 * offset + R := data ! (4 * offset + 2),
         4 * offset + A := data ! (4 * offset + 3)])
       (prange (unat (width * height))) pixels"

definition save_bgra8888 :: codec where
  "save_bgra8888 pixels data width height =
     fold (\<lambda>offset data. data
        [4 * offset + 0 := pixels ! (4 * offset + B),
         4 * offset + 1 := pixels ! (4 * offset + G),
         4 * offset + 2 := pixels ! (4 * offset + R),
         4 * offset + 3 := pixels ! (4 * offset + A)])
       (prange (unat (width * height))) data"

definition load_argb8888 :: codec where
  "load_argb8888 pixels data width height =
     fold (\<lambda>offset pixels. pixels
        [4 * offset + R := data ! (4 * offset + 3),
         4 * offset + G := data ! (4 * offset + 0),
         4 * offset + B := data ! (4 * offset + 1),
         4 * offset + A := data ! (4 * offset + 2)])
       (prange (unat (width * height))) pixels"

definition save_argb8888 :: codec where
  "save_argb8888 pixels data width height =
     fold (\<lambda>offset data. data
        [4 * offset + 0 := pixels ! (4 * offset + G),
         4 * offset + 1 := pixels ! (4 * offset + B),
         4 * offset + 2 := pixels ! (4 * offset + A),
         4 * offset + 3 := pixels ! (4 * offset + R)])
       (prange (unat (width * height))) data"

definition load_abgr8888 :: codec where
  "load_abgr8888 pixels data width height =
     fold (\<lambda>offset pixels. pixels
        [4 * offset + R := data ! (4 * offset + 3),
         4 * offset + G := data ! (4 * offset + 2),
         4 * offset + B := data ! (4 * offset + 1),
         4 * offset + A := data ! (4 * offset + 0)])
       (prange (unat (width * height))) pixels"

definition save_abgr8888 :: codec where
  "save_abgr8888 pixels data width height =
     fold (\<lambda>offset data. data
        [4 * offset + 0 := pixels ! (4 * offset + A),
         4 * offset + 1 := pixels ! (4 * offset + B),
         4 * offset + 2 := pixels ! (4 * offset + G),
         4 * offset + 3 := pixels ! (4 * offset + R)])
       (prange (unat (width * height))) data"

definition load_rgb888 :: codec where
  "load_rgb888 pixels data width height =
     fold (\<lambda>offset pixels. pixels
        [4 * offset + R := data ! (3 * offset + 0),
         4 * offset + G := data ! (3 * offset + 1),
         4 * offset + B := data ! (3 * offset + 2),
         4 * offset + A := 255])
       (prange (unat (width * height))) pixels"

definition save_rgb888 :: codec where
  "save_rgb888 pixels data width height =
     fold (\<lambda>offset data. data
        [3 * offset + 0 := pixels ! (4 * offset + R),
         3 * offset + 1 := pixels ! (4 * offset + G),
         3 * offset + 2 := pixels ! (4 * offset + B)])
       (prange (unat (width * height))) data"

definition load_bgr888 :: codec where
  "load_bgr888 pixels data width height =
     fold (\<lambda>offset pixels. pixels
        [4 * offset + R := data ! (3 * offset + 2),
         4 * offset + G := data ! (3 * offset + 1),
         4 * offset + B := data ! (3 * offset + 0),
         4 * offset + A := 255])
       (prange (unat (width * height))) pixels"

definition save_bgr888 :: codec where
  "save_bgr888 pixels data width height =
     fold (\<lambda>offset data. data
        [3 * offset + 0 := pixels ! (4 * offset + B),
         3 * offset + 1 := pixels ! (4 * offset + G),
         3 * offset + 2 := pixels ! (4 * offset + R)])
       (prange (unat (width * height))) data"

definition load_bgrx8888 :: codec where
  "load_bgrx8888 pixels data width height =
     fold (\<lambda>offset pixels. pixels
        [4 * offset + R := data ! (4 * offset + 2),
         4 * offset + G := data ! (4 * offset + 1),
         4 * offset + B := data ! (4 * offset + 0),
         4 * offset + A := 255])
       (prange (unat (width * height))) pixels"

definition save_bgrx8888 :: codec where
  "save_bgrx8888 pixels data width height =
     fold (\<lambda>offset data. data
        [4 * offset + 0 := pixels ! (4 * offset + B),
         4 * offset + 1 := pixels ! (4 * offset + G),
         4 * offset + 2 := pixels ! (4 * offset + R),
         4 * offset + 3 := 0])
       (prange (unat (width * height))) data"

definition load_rgb565 :: codec where
  "load_rgb565 pixels data width height =
     fold (\<lambda>offset pixels.
        case decomp565 (data ! (2 * offset)) (data ! (2 * offset + 1)) of
          RGB col_r col_g col_b \<Rightarrow> pixels
            [4 * offset + R := col_r,
             4 * offset + G := col_g,
             4 * offset + B := col_b,
             4 * offset + A := 255])
       (prange (unat (width * height))) pixels"

definition save_rgb565 :: codec where
  "save_rgb565 pixels data width height =
     fold (\<lambda>offset data.
        case compress565 (pixels ! (4 * offset + R))
                         (pixels ! (4 * offset + G))
                         (pixels ! (4 * offset + B)) of
          (lo, hi) \<Rightarrow> data[2 * offset := lo, 2 * offset + 1 := hi])
       (prange (unat (width * height))) data"

definition load_bgr565 :: codec where
  "load_bgr565 pixels data width height =
     fold (\<lambda>offset pixels.
        case decomp565 (data ! (2 * offset)) (data ! (2 * offset + 1)) of
          RGB col_r col_g col_b \<Rightarrow> pixels
            [4 * offset + R := col_b,
             4 * offset + G := col_g,
             4 * offset + B := col_r,
             4 * offset + A := 255])
       (prange (unat (width * height))) pixels"

definition save_bgr565 :: codec where
  "save_bgr565 pixels data width height =
     fold (\<lambda>offset data.
        case compress565 (pixels ! (4 * offset + B))
                         (pixels ! (4 * offset + G))
                         (pixels ! (4 * offset + R)) of
          (lo, hi) \<Rightarrow> data[2 * offset := lo, 2 * offset + 1 := hi])
       (prange (unat (width * height))) data"

definition load_bgra4444 :: codec where
  "load_bgra4444 pixels data width height =
     fold (\<lambda>offset pixels.
        let a = data ! (2 * offset);
            b = data ! (2 * offset + 1)
        in pixels
            [4 * offset + G := (a AND 0xF0) OR drop_bit 4 (a AND 0xF0),
             4 * offset + B := (a AND 0x0F) OR push_bit 4 (a AND 0x0F),
             4 * offset + R := (b AND 0x0F) OR push_bit 4 (b AND 0x0F),
             4 * offset + A := (b AND 0xF0) OR drop_bit 4 (b AND 0xF0)])
       (prange (unat (width * height))) pixels"

definition save_bgra4444 :: codec where
  "save_bgra4444 pixels data width height =
     fold (\<lambda>offset data. data
        [2 * offset + 0 := (pixels ! (4 * offset + G) AND 0xF0) OR drop_bit 4 (pixels ! (4 * offset + B)),
         2 * offset + 1 := (pixels ! (4 * offset + A) AND 0xF0) OR drop_bit 4 (pixels ! (4 * offset + R))])
       (prange (unat (width * height))) data"

definition load_bgra5551 :: codec where
  "load_bgra5551 pixels data width height =
     fold (\<lambda>offset pixels.
        let a = data ! (2 * offset);
            b = data ! (2 * offset + 1)
        in pixels
            [4 * offset + R := upsample 5 (push_bit 1 (b AND 0x7C)),
             4 * offset + G := upsample 5 (drop_bit 2 (a AND 0xE0) OR push_bit 6 (b AND 0x03)),
             4 * offset + B := upsample 5 (push_bit 3 (a AND 0x1F)),
             4 * offset + A := (if b AND 0x80 \<noteq> 0 then 255 else 0)])
       (prange (unat (width * height))) pixels"

definition save_bgra5551 :: codec where
  "save_bgra5551 pixels data width height =
     fold (\<lambda>offset data.
        let r = pixels ! (4 * offset + R);
            g = pixels ! (4 * offset + G);
            b = pixels ! (4 * offset + B);
            a = pixels ! (4 * offset + A)
        in data
            [2 * offset + 0 := (b AND 0xF8) OR drop_bit 5 g,
             2 * offset + 1 := (push_bit 6 g AND 0xC0) OR (drop_bit 2 r AND 0x3E) OR drop_bit 7 a])
       (prange (unat (width * height))) data"

definition load_bgrx5551 :: codec where
  "load_bgrx5551 pixels data width height =
     fold (\<lambda>offset pixels.
        let a = data ! (2 * offset);
            b = data ! (2 * offset + 1)
        in pixels
            [4 * offset + R := upsample 5 (push_bit 1 (b AND 0x7C)),
             4 * offset + G := upsample 5 (drop_bit 2 (a AND 0xE0) OR push_bit 6 (b AND 0x03)),
             4 * offset + B := upsample 5 (push_bit 3 (a AND 0x1F)),
             4 * offset + A := 255])
       (prange (unat (width * height))) pixels"

definition save_bgrx5551 :: codec where
  "save_bgrx5551 pixels data width height =
     fold (\<lambda>offset data.
        let r = pixels ! (4 * offset + R);
            g = pixels ! (4 * offset + G);
            b = pixels ! (4 * offset + B)
        in data
            [2 * offset + 0 := (b AND 0xF8) OR drop_bit 5 g,
             2 * offset + 1 := (push_bit 6 g AND 0xC0) OR (drop_bit 2 r AND 0x3E)])
       (prange (unat (width * height))) data"

definition load_i8 :: codec where
  "load_i8 pixels data width height =
     fold (\<lambda>offset pixels.
        let color = data ! offset
        in pixels
            [4 * offset + R := color,
             4 * offset + G := color,
             4 * offset + B := color,
             4 * offset + A := 255])
       (prange (unat (width * height))) pixels"

definition save_i8 :: codec where
  "save_i8 pixels data width height =
     fold (\<lambda>offset data.
        let r = pixels ! (4 * offset + R);
            g = pixels ! (4 * offset + G);
            b = pixels ! (4 * offset + B)
        in data[offset := of_nat ((unat r + unat g + unat b) div 3)])
       (prange (unat (width * height))) data"

definition load_ia88 :: codec where
  "load_ia88 pixels data width height =
     fold (\<lambda>offset pixels.
        let color = data ! (2 * offset)
        in pixels
            [4 * offset + R := color,
             4 * offset + G := color,
             4 * offset + B := color,
             4 * offset + 3 := data ! (2 * offset + 1)])
       (prange (unat (width * height))) pixels"

definition save_ia88 :: codec where
  "save_ia88 pixels data width height =
     fold (\<lambda>offset data.
        let r = pixels ! (4 * offset + R);
            g = pixels ! (4 * offset + G);
            b = pixels ! (4 * offset + B)
        in data
            [2 * offset + 0 := of_nat ((unat r + unat g + unat b) div 3),
             2 * offset + 1 := pixels ! (4 * offset + A)])
       (prange (unat (width * height))) data"

text \<open>
  \<^verbatim>\<open>load_a8\<close> clears with \<^verbatim>\<open>memset(&pixels[0], 0, width * height)\<close>: the count is
  the number of pixels, not the number of bytes.
\<close>

definition load_a8 :: codec where
  "load_a8 pixels data width height =
     fold (\<lambda>offset pixels. pixels[4 * offset + A := data ! offset])
       (prange (unat (width * height)))
       (memset pixels 0 (unat (width * height)))"

definition save_a8 :: codec where
  "save_a8 pixels data width height =
     fold (\<lambda>offset data. data[offset := pixels ! (4 * offset + A)])
       (prange (unat (width * height))) data"

definition load_uv88 :: codec where
  "load_uv88 pixels data width height =
     fold (\<lambda>offset pixels. pixels
        [4 * offset + R := data ! (2 * offset),
         4 * offset + G := data ! (2 * offset + 1),
         4 * offset + B := 0,
         4 * offset + A := 255])
       (prange (unat (width * height))) pixels"

definition save_uv88 :: codec where
  "save_uv88 pixels data width height =
     fold (\<lambda>offset data. data
        [2 * offset + 0 := pixels ! (4 * offset + R),
         2 * offset + 1 := pixels ! (4 * offset + G)])
       (prange (unat (width * height))) data"

definition load_rgb888_bluescreen :: codec where
  "load_rgb888_bluescreen pixels data width height =
     fold (\<lambda>offset pixels.
        let r = data ! (3 * offset);
            g = data ! (3 * offset + 1);
            b = data ! (3 * offset + 2)
        in if (r = g \<and> g = 0) \<and> b = 255
           then pixels[4 * offset := 0, 4 * offset + 1 := 0,
                       4 * offset + 2 := 0, 4 * offset + 3 := 0]
           else pixels[4 * offset + R := r,
                       4 * offset + G := g,
                       4 * offset + B := b,
                       4 * offset + A := 255])
       (prange (unat (width * height))) pixels"

definition save_rgb888_bluescreen :: codec where
  "save_rgb888_bluescreen pixels data width height =
     fold (\<lambda>offset data.
        if pixels ! (4 * offset + A) < 128
        then data[3 * offset + 0 := 0, 3 * offset + 1 := 0, 3 * offset + 2 := 255]
        else data[3 * offset + 0 := pixels ! (4 * offset + R),
                  3 * offset + 1 := pixels ! (4 * offset + G),
                  3 * offset + 2 := pixels ! (4 * offset + B)])
       (prange (unat (width * height))) data"

definition load_bgr888_bluescreen :: codec where
  "load_bgr888_bluescreen pixels data width height =
     fold (\<lambda>offset pixels.
        let r = data ! (3 * offset + 2);
            g = data ! (3 * offset + 1);
            b = data ! (3 * offset)
        in if (r = g \<and> g = 0) \<and> b = 255
           then pixels[4 * offset := 0, 4 * offset + 1 := 0,
                       4 * offset + 2 := 0, 4 * offset + 3 := 0]
           else pixels[4 * offset + R := r,
                       4 * offset + G := g,
                       4 * offset + B := b,
                       4 * offset + A := 255])
       (prange (unat (width * height))) pixels"

definition save_bgr888_bluescreen :: codec where
  "save_bgr888_bluescreen pixels data width height =
     fold (\<lambda>offset data.
        if pixels ! (4 * offset + A) < 128
        then data[3 * offset + 0 := 255, 3 * offset + 1 := 0, 3 * offset + 2 := 0]
        else data[3 * offset + 0 := pixels ! (4 * offset + B),
                  3 * offset + 1 := pixels ! (4 * offset + G),
                  3 * offset + 2 := pixels ! (4 * offset + R)])
       (prange (unat (width * height))) data"

section \<open>Block-compressed formats\<close>

text \<open>
  \<^verbatim>\<open>CompressImage\<close> and \<^verbatim>\<open>DecompressImage\<close> belong to the external library
  \<^verbatim>\<open>squish\<close> (declared \<^verbatim>\<open>cdef extern\<close>); the codecs take the two functions as a
  parameter.  The flags are combined with bitwise or in the source; the values of the
  flag bits are not part of this module, so a combination is the set of its flags.
\<close>

datatype squish_flag =
    kDxt1 | kDxt3 | kDxt5 | kBc4 | kBc5
  | kColourClusterFit | kColourRangeFit | kWeightColourByAlpha
  | kColourIterativeClusterFit | kSourceBGRA | kForceOpaque

record squish =
  CompressImage :: "byte list \<Rightarrow> uint \<Rightarrow> uint \<Rightarrow> byte list \<Rightarrow> squish_flag set \<Rightarrow> byte list"
  DecompressImage :: "byte list \<Rightarrow> uint \<Rightarrow> uint \<Rightarrow> byte list \<Rightarrow> squish_flag set \<Rightarrow> byte list"

definition load_dxt1 :: "squish \<Rightarrow> codec" where
  "load_dxt1 sq pixels data width height =
     (if width < 4 \<or> height < 4
      then fold (\<lambda>offset pixels. pixels
              [4 * offset := 0,
               4 * offset + 1 := 0,
               4 * offset + 2 := 0,
               4 * offset + 2 := 0xFF])
             (prange (unat (width * height))) pixels
      else DecompressImage sq pixels width height data {kDxt1, kForceOpaque})"

definition save_dxt1 :: "squish \<Rightarrow> codec" where
  "save_dxt1 sq pixels data width height =
     (if width \<ge> 4 \<and> height \<ge> 4
      then CompressImage sq pixels width height data {kDxt1, kForceOpaque}
      else data)"

definition load_dxt1_alpha :: "squish \<Rightarrow> codec" where
  "load_dxt1_alpha sq pixels data width height =
     (if width < 4 \<or> height < 4
      then fold (\<lambda>offset pixels. pixels
              [4 * offset := 0,
               4 * offset + 1 := 0,
               4 * offset + 2 := 0,
               4 * offset + 2 := 0xFF])
             (prange (unat (width * height))) pixels
      else DecompressImage sq pixels width height data {kDxt1})"

definition save_dxt1_alpha :: "squish \<Rightarrow> codec" where
  "save_dxt1_alpha sq pixels data width height =
     (if width \<ge> 4 \<and> height \<ge> 4
      then CompressImage sq pixels width height data {kDxt1}
      else data)"

definition load_dxt3 :: "squish \<Rightarrow> codec" where
  "load_dxt3 sq pixels data width height =
     (if width < 4 \<or> height < 4
      then fold (\<lambda>offset pixels. pixels
              [offset := 0,
               offset + 1 := 0,
               offset + 2 := 0,
               offset + 2 := 0xFF])
             (range_step (unat (4 * width * height)) 4) pixels
      else DecompressImage sq pixels width height data {kDxt3})"

definition save_dxt3 :: "squish \<Rightarrow> codec" where
  "save_dxt3 sq pixels data width height =
     (if width \<ge> 4 \<and> height \<ge> 4
      then CompressImage sq pixels width height data {kDxt3}
      else data)"

definition load_dxt5 :: "squish \<Rightarrow> codec" where
  "load_dxt5 sq pixels data width height =
     (if width < 4 \<or> height < 4
      then fold (\<lambda>offset pixels. pixels
              [4 * offset := 0,
               4 * offset + 1 := 0,
               4 * offset + 2 := 0,
               4 * offset + 2 := 0xFF])
             (prange (unat (width * height))) pixels
      else DecompressImage sq pixels width height data {kDxt5})"

definition save_dxt5 :: "squish \<Rightarrow> codec" where
  "save_dxt5 sq pixels data width height =
     (if width \<ge> 4 \<and> height \<ge> 4
      then CompressImage sq pixels width height data {kDxt5}
      else data)"

definition load_ati2n :: "squish \<Rightarrow> codec" where
  "load_ati2n sq pixels data width height =
     (if width < 4 \<or> height < 4
      then fold (\<lambda>offset pixels. pixels
              [4 * offset := 0,
               4 * offset + 1 := 0,
               4 * offset + 2 := 0,
               4 * offset + 2 := 0xFF])
             (prange (unat (width * height))) pixels
      else DecompressImage sq pixels width height data {kBc5})"

definition save_ati2n :: "squish \<Rightarrow> codec" where
  "save_ati2n sq pixels data width height =
     (if width \<ge> 4 \<and> height \<ge> 4
      then CompressImage sq pixels width height data {kBc5}
      else data)"

section \<open>Format registry\<close>

text \<open>
  The C struct \<^verbatim>\<open>Format\<close> has the fields \<^verbatim>\<open>name\<close>, \<^verbatim>\<open>load\<close> and \<^verbatim>\<open>save\<close>;
  the selectors carry the prefix \<^verbatim>\<open>fmt_\<close> here, since \<^verbatim>\<open>load\<close> and \<^verbatim>\<open>save\<close> are
  also the module's public functions.  A \<^verbatim>\<open>NULL\<close> function pointer is \<open>None\<close>.
  A member of the Python enum \<^verbatim>\<open>ImageFormats\<close> is seen by this module through its
  attributes \<^verbatim>\<open>ind\<close> and \<^verbatim>\<open>name\<close> only.
\<close>

datatype Format = Format (fmt_name: string) (fmt_load: "codec option") (fmt_save: "codec option")

record ImageFormats =
  ind :: int
  name :: string

definition FORMATS :: "squish \<Rightarrow> Format list" where
  "FORMATS sq =
   [Format ''RGBA8888'' (Some load_copy) (Some save_copy),
    Format ''ABGR8888'' (Some load_abgr8888) (Some save_abgr8888),
    Format ''RGB888'' (Some load_rgb888) (Some save_rgb888),
    Format ''BGR888'' (Some load_bgr888) (Some save_bgr888),
    Format ''RGB565'' (Some load_rgb565) (Some save_rgb565),
    Format ''I8'' (Some load_i8) (Some save_i8),
    Format ''IA88'' (Some load_ia88) (Some save_ia88),
    Format ''P8'' None None,
    Format ''A8'' (Some load_a8) (Some save_a8),
    Format ''RGB888_BLUESCREEN'' (Some load_rgb888_bluescreen) (Some save_rgb888_bluescreen),
    Format ''BGR888_BLUESCREEN'' (Some load_bgr888_bluescreen) (Some save_bgr888_bluescreen),
    Format ''ARGB8888'' (Some load_argb8888) (Some save_argb8888),
    Format ''BGRA8888'' (Some load_bgra8888) (Some save_bgra8888),
    Format ''DXT1'' (Some (load_dxt1 sq)) (Some (save_dxt1 sq)),
    Format ''DXT3'' (Some (load_dxt3 sq)) (Some (save_dxt3 sq)),
    Format ''DXT5'' (Some (load_dxt5 sq)) (Some (save_dxt5 sq)),
    Format ''BGRX8888'' (Some load_bgrx8888) (Some save_bgrx8888),
    Format ''BGR565'' (Some load_bgr565) (Some save_bgr565),
    Format ''BGRX5551'' (Some load_bgrx5551) (Some save_bgrx5551),
    Format ''BGRA4444'' (Some load_bgra4444) (Some save_bgra4444),
    Format ''DXT1_ONEBITALPHA'' (Some (load_dxt1_alpha sq)) (Some (save_dxt1_alpha sq)),
    Format ''BGRA5551'' (Some load_bgra5551) (Some save_bgra5551),
    Format ''UV88'' (Some load_uv88) (Some save_uv88),
    Format ''UVWQ8888'' (Some load_copy) (Some save_copy),
    Format ''RGBA16161616F'' None None,
    Format ''RGBA16161616'' None None,
    Format ''UVLX8888'' (Some load_copy) (Some save_copy),
    Format ''NONE'' None None,
    Format ''ATI1N'' None None,
    Format ''ATI2N'' (Some (load_ati2n sq)) (Some (save_ati2n sq))]"

text \<open>
  \<^verbatim>\<open>cdef int index = fmt.ind\<close> converts a Python integer to a C \<^verbatim>\<open>int\<close> and raises
  \<^verbatim>\<open>OverflowError\<close> outside its range.
\<close>

definition c_int_range :: "int \<Rightarrow> bool" where
  "c_int_range i \<longleftrightarrow> - (2 ^ 31) \<le> i \<and> i < 2 ^ 31"

text \<open>
  The C library's \<^verbatim>\<open>strcmp\<close>: both arguments are the bytes before the terminating
  zero byte, which follows the end of each list; a zero byte inside a list ends the string
  there.
\<close>

fun strcmp :: "string \<Rightarrow> string \<Rightarrow> int" where
  "strcmp [] [] = 0"
| "strcmp [] (y # ys) = (if y = CHR 0x00 then 0 else - 1)"
| "strcmp (x # xs) [] = (if x = CHR 0x00 then 0 else 1)"
| "strcmp (x # xs) (y # ys) =
     (if x \<noteq> y then (if (of_char x :: nat) < of_char y then - 1 else 1)
      else if x = CHR 0x00 then 0
      else strcmp xs ys)"

text \<open>
  \<^verbatim>\<open>str.encode('ascii')\<close> raises \<^verbatim>\<open>UnicodeEncodeError\<close> at a character above 127.
\<close>

definition encode_ascii :: "string \<Rightarrow> py_error + string" where
  "encode_ascii s = (if list_all (\<lambda>c. (of_char c :: nat) < 128) s then Inr s else Inl UnicodeEncodeError)"

fun init :: "squish \<Rightarrow> ImageFormats list \<Rightarrow> py_error + unit" where
  "init sq [] = Inr ()"
| "init sq (fmt # formats) =
     (if \<not> c_int_range (ind fmt) then Inl OverflowError
      else let index = ind fmt in
        if \<not> (0 \<le> index \<and> index < 30) then Inl AssertionError
        else case encode_ascii (name fmt) of
          Inl e \<Rightarrow> Inl e
        | Inr encoded \<Rightarrow>
            if \<not> (strcmp encoded (fmt_name (FORMATS sq ! nat index)) = 0) then Inl AssertionError
            else init sq formats)"

definition load ::
  "squish \<Rightarrow> ImageFormats \<Rightarrow> byte list \<Rightarrow> byte list \<Rightarrow> uint \<Rightarrow> uint \<Rightarrow> py_error + byte list" where
  "load sq fmt pixels data width height =
     (if \<not> c_int_range (ind fmt) then Inl OverflowError
      else let index = ind fmt;
               unsupported = NotImplementedError (''Loading '' @ name fmt @ '' not implemented!'')
      in if 0 \<le> index \<and> index < 30
         then (case fmt_load (FORMATS sq ! nat index) of
                 Some f \<Rightarrow> Inr (f pixels data width height)
               | None \<Rightarrow> Inl unsupported)
         else Inl unsupported)"

definition save ::
  "squish \<Rightarrow> ImageFormats \<Rightarrow> byte list \<Rightarrow> byte list \<Rightarrow> uint \<Rightarrow> uint \<Rightarrow> py_error + byte list" where
  "save sq fmt pixels data width height =
     (if \<not> c_int_range (ind fmt) then Inl OverflowError
      else let index = ind fmt;
               unsupported = NotImplementedError (''Saving '' @ name fmt @ '' not implemented!'')
      in if 0 \<le> index \<and> index < 30
         then (case fmt_save (FORMATS sq ! nat index) of
                 Some f \<Rightarrow> Inr (f pixels data width height)
               | None \<Rightarrow> Inl unsupported)
         else Inl unsupported)"

section \<open>Mipmap downscaler\<close>

text \<open>
  \<^verbatim>\<open>filter_val\<close> is the value of the \<^verbatim>\<open>FilterMode\<close> member, converted to a C
  \<^verbatim>\<open>int\<close>.  All offsets are \<^verbatim>\<open>Py_ssize_t\<close>.  The sum of the four samples is an
  \<^verbatim>\<open>int\<close>, divided with \<^verbatim>\<open>//\<close> and stored into a byte.
\<close>

definition scale_down ::
  "int \<Rightarrow> uint \<Rightarrow> uint \<Rightarrow> uint \<Rightarrow> uint \<Rightarrow> byte list \<Rightarrow> byte list \<Rightarrow> py_error + byte list" where
  "scale_down filt src_width src_height width height src dest =
     (if \<not> c_int_range filt then Inl OverflowError
      else
      let filter_val = filt;
          (horiz_off, per_column) = (if width \<noteq> src_width then (4, 2) else (0, 1));
          (vert_off, per_row) =
             (if height \<noteq> src_height
              then (4 * per_column * unat width, 2 * per_column * unat width)
              else (0, per_column * unat width))
      in
      if filter_val = 4 then
        Inr (fold (\<lambda>y dest.
               fold (\<lambda>x dest.
                  let off = 4 * (unat width * y + x);
                      off2 = 4 * (per_row * y + per_column * x)
                  in fold (\<lambda>channel dest. dest[off + channel := of_nat
                        ((unat (src ! (off2 + channel)) +
                          unat (src ! (off2 + channel + horiz_off)) +
                          unat (src ! (off2 + channel + vert_off)) +
                          unat (src ! (off2 + channel + vert_off + horiz_off))) div 4)])
                       [0..<4] dest)
                 [0..<unat width] dest)
              (prange (unat height)) dest)
      else if filter_val \<notin> {0, 1, 2, 3} then Inl ValueError
      else
        let pos_off =
              (if filter_val = 0 then 0
               else if filter_val = 1 then horiz_off
               else if filter_val = 2 then vert_off
               else vert_off + horiz_off)
        in Inr (fold (\<lambda>y dest.
               fold (\<lambda>x dest.
                  let off = 4 * (unat width * y + x);
                      off2 = 4 * (per_row * y + per_column * x)
                  in fold (\<lambda>channel dest. dest[off + channel := src ! (off2 + pos_off + channel)])
                       [0..<4] dest)
                 [0..<unat width] dest)
              (prange (unat height)) dest))"

section \<open>PPM helper\<close>

text \<open>
  \<^verbatim>\<open>sprintf\<close> with \<^verbatim>\<open>%u\<close> prints an \<^verbatim>\<open>unsigned int\<close> in decimal, without
  leading zeros.
\<close>

function utoa :: "nat \<Rightarrow> string" where
  "utoa n = (if n < 10 then [char_of (48 + n)] else utoa (n div 10) @ [char_of (48 + n mod 10)])"
  by pat_completeness auto
termination
  by (relation "measure id") auto

declare utoa.simps [simp del]

definition PPM_HEADER :: "uint \<Rightarrow> uint \<Rightarrow> string" where
  "PPM_HEADER width height =
     ''P6 '' @ utoa (unat width) @ '' '' @ utoa (unat height) @ '' 255'' @ [CHR 0x0A]"

definition bytes_of :: "string \<Rightarrow> byte list" where
  "bytes_of s = map of_char s"

text \<open>
  The C library's \<^verbatim>\<open>sprintf(dst, format, ...)\<close> writes the formatted text and a
  terminating zero byte to \<open>dst\<close> and returns the number of characters of the text.  It
  takes no size and always writes: with a null \<open>dst\<close> (\<open>None\<close>) the write goes through
  the null pointer, which is undefined behaviour in C and ends the process where address 0
  is not mapped.  The model records this as a fault in place of a result.  The second
  argument here is the text already formatted.
\<close>

datatype c_fault = NullPointerWrite

definition sprintf :: "byte list option \<Rightarrow> string \<Rightarrow> c_fault + byte list \<times> nat" where
  "sprintf dst s =
     (case dst of
        None \<Rightarrow> Inl NullPointerWrite
      | Some buffer \<Rightarrow> Inr (memcpy buffer (bytes_of s @ [0]) (length s + 1), length s))"

text \<open>
  \<^verbatim>\<open>ppm_convert\<close> first calls \<^verbatim>\<open>sprintf(NULL, PPM_HEADER, width, height)\<close> for the
  length of the header, and what follows uses the value returned.
  \<^verbatim>\<open>PyBytes_FromStringAndSize(NULL, n)\<close> returns an object of \<open>n\<close> uninitialised bytes
  followed by a zero byte: \<open>mem\<close> gives the uninitialised contents.  The second
  \<^verbatim>\<open>sprintf\<close> writes the header and a terminating zero byte into it.  With a
  background colour the three channels are blended in C \<^verbatim>\<open>float\<close> arithmetic, which is
  the parameter \<open>composite\<close> (channel, alpha and background channel to the byte stored).
\<close>

definition ppm_convert ::
  "(nat \<Rightarrow> byte) \<Rightarrow> (byte \<Rightarrow> byte \<Rightarrow> int \<Rightarrow> byte) \<Rightarrow>
   byte list \<Rightarrow> uint \<Rightarrow> uint \<Rightarrow> (int \<times> int \<times> int) option \<Rightarrow> c_fault + byte list" where
  "ppm_convert mem composite pixels width height bg =
     (let size = unat (3 * width * height)
      in case sprintf None (PPM_HEADER width height) of
        Inl fault \<Rightarrow> Inl fault
      | Inr (unused, header_size) \<Rightarrow>
          let result = map mem [0..<size + header_size] @ [0]
          in case sprintf (Some result) (PPM_HEADER width height) of
            Inl fault \<Rightarrow> Inl fault
          | Inr (buffer, written) \<Rightarrow>
              let buffer = (case bg of
                  Some (r, g, b) \<Rightarrow>
                    fold (\<lambda>off buffer. buffer
                       [header_size + 3 * off + R :=
                          composite (pixels ! (4 * off)) (pixels ! (4 * off + 3)) r,
                        header_size + 3 * off + G :=
                          composite (pixels ! (4 * off + 1)) (pixels ! (4 * off + 3)) g,
                        header_size + 3 * off + B :=
                          composite (pixels ! (4 * off + 2)) (pixels ! (4 * off + 3)) b])
                      (prange (unat (width * height))) buffer
                | None \<Rightarrow>
                    fold (\<lambda>off buffer. buffer
                       [header_size + 3 * off + R := pixels ! (4 * off),
                        header_size + 3 * off + G := pixels ! (4 * off + 1),
                        header_size + 3 * off + B := pixels ! (4 * off + 2)])
                      (prange (unat (width * height))) buffer)
              in Inr (take (size + header_size) buffer))"

text \<open>
  A stand-in for the external library, for evaluating the registry on concrete inputs:
  both functions leave their output buffer as it is.
\<close>

definition squish_identity :: squish where
  "squish_identity =
     \<lparr>CompressImage = (\<lambda>rgba width height blocks flags. blocks),
      DecompressImage = (\<lambda>rgba width height blocks flags. rgba)\<rparr>"

section \<open>The lossless formats\<close>

text \<open>
  The formats that the specification lists as lossless, by registry index: RGBA8888 (0),
  ABGR8888 (1), RGB888 (2), BGR888 (3), IA88 (6), A8 (8), ARGB8888 (11), BGRA8888 (12),
  BGRX8888 (16), UV88 (22), UVWQ8888 (23), UVLX8888 (26); the number of bytes that each of
  them takes for a pixel; and the canonical buffers that each can represent: alpha 255
  for BGRX8888, RGB888 and BGR888; blue 0 and alpha 255 for UV88; red, green and blue 0
  for A8; red, green and blue equal for IA88.  A fresh buffer is a newly created
  \<^verbatim>\<open>bytearray(n)\<close>, which Python fills with zero bytes.
\<close>

definition lossless_formats :: "int set" where
  "lossless_formats = {0, 1, 2, 3, 6, 8, 11, 12, 16, 22, 23, 26}"

definition bytes_per_pixel :: "int \<Rightarrow> nat" where
  "bytes_per_pixel tag =
     (if tag \<in> {2, 3} then 3 else if tag \<in> {6, 22} then 2 else if tag = 8 then 1 else 4)"

definition representable :: "int \<Rightarrow> byte list \<Rightarrow> bool" where
  "representable tag pixels =
     list_all (\<lambda>k.
        (tag \<in> {16, 2, 3} \<longrightarrow> pixels ! (4 * k + A) = 255) \<and>
        (tag = 22 \<longrightarrow> pixels ! (4 * k + B) = 0 \<and> pixels ! (4 * k + A) = 255) \<and>
        (tag = 8 \<longrightarrow> pixels ! (4 * k + R) = 0 \<and> pixels ! (4 * k + G) = 0 \<and>
                     pixels ! (4 * k + B) = 0) \<and>
        (tag = 6 \<longrightarrow> pixels ! (4 * k + R) = pixels ! (4 * k + G) \<and>
                     pixels ! (4 * k + G) = pixels ! (4 * k + B)))
       [0..<length pixels div 4]"

definition fresh :: "nat \<Rightarrow> byte list" where
  "fresh n = replicate n 0"

section \<open>Loops over pixel blocks\<close>

lemmas channel_defs = R_def G_def B_def A_def

lemma nth_list_update_if:
  "xs[i := x] ! j = (if i = j \<and> i < length xs then x else xs ! j)"
  by (cases "i < length xs") (auto simp: nth_list_update list_update_beyond)

lemma fold_upt_length:
  assumes "\<And>k xs. length (step k xs) = length xs"
  shows "length (fold step [0..<n] xs) = length xs"
  by (induction n) (simp_all add: assms)

text \<open>A position that no iteration writes keeps its value.\<close>

lemma fold_upt_frame:
  assumes len: "\<And>k xs. length (step k xs) = length xs"
    and frame: "\<And>k xs. k < n \<Longrightarrow> j < length xs \<Longrightarrow> step k xs ! j = xs ! j"
    and j: "j < length xs"
  shows "fold step [0..<n] xs ! j = xs ! j"
  using frame
proof (induction n)
  case 0
  show ?case by simp
next
  case (Suc n)
  have "fold step [0..<n] xs ! j = xs ! j"
    using Suc.IH Suc.prems by simp
  moreover have "step n (fold step [0..<n] xs) ! j = fold step [0..<n] xs ! j"
    using Suc.prems [of n "fold step [0..<n] xs"] j by (simp add: fold_upt_length [of step, OF len])
  ultimately show ?case by simp
qed

text \<open>
  If what an iteration leaves at a position depends on the buffer through that position
  only, the same holds for the loop.
\<close>

lemma fold_upt_local:
  assumes len: "\<And>k xs. length (step k xs) = length xs"
    and loc: "\<And>k xs ys. length xs = length ys \<Longrightarrow> j < length xs \<Longrightarrow> xs ! j = ys ! j \<Longrightarrow>
                 step k xs ! j = step k ys ! j"
    and "length xs = length ys" "j < length xs" "xs ! j = ys ! j"
  shows "fold step [0..<n] xs ! j = fold step [0..<n] ys ! j"
proof (induction n)
  case 0
  show ?case using assms by simp
next
  case (Suc n)
  have "step n (fold step [0..<n] xs) ! j = step n (fold step [0..<n] ys) ! j"
    using Suc assms(3,4) by (intro loc) (simp_all add: fold_upt_length [of step, OF len])
  then show ?case by simp
qed

text \<open>
  Iteration \<open>k\<close> writes inside the block of \<open>s\<close> positions that starts at \<open>b + s * k\<close>:
  after the loop, block \<open>k\<close> holds what iteration \<open>k\<close> alone writes.
\<close>

lemma fold_upt_block:
  fixes step :: "nat \<Rightarrow> 'a list \<Rightarrow> 'a list"
  assumes len: "\<And>k xs. length (step k xs) = length xs"
    and frame: "\<And>k xs j. j < length xs \<Longrightarrow> j < b + s * k \<or> b + s * k + s \<le> j \<Longrightarrow>
                 step k xs ! j = xs ! j"
    and loc: "\<And>k xs ys j. length xs = length ys \<Longrightarrow> j < length xs \<Longrightarrow> xs ! j = ys ! j \<Longrightarrow>
                 step k xs ! j = step k ys ! j"
    and k: "k < n" and c: "c < s" and j: "b + s * k + c < length xs"
  shows "fold step [0..<n] xs ! (b + s * k + c) = step k xs ! (b + s * k + c)"
  using k
proof (induction n)
  case 0
  then show ?case by simp
next
  case (Suc n)
  let ?ys = "fold step [0..<n] xs"
  let ?j = "b + s * k + c"
  have lys: "length ?ys = length xs" by (rule fold_upt_length [of step, OF len])
  show ?case
  proof (cases "k < n")
    case True
    then have "s * k + s \<le> s * n"
      by (metis Suc_leI mult_Suc_right mult_le_mono2 add.commute)
    then have "b + s * n > ?j" using c by linarith
    then have "step n ?ys ! ?j = ?ys ! ?j"
      using j lys by (intro frame) simp_all
    with Suc.IH True show ?thesis by simp
  next
    case False
    with Suc.prems have kn: "k = n" by simp
    have "?ys ! ?j = xs ! ?j"
    proof (rule fold_upt_frame [of step, OF len _ j])
      fix i and zs :: "'a list" assume i: "i < n" and "?j < length zs"
      from i have "s * i + s \<le> s * n"
        by (metis Suc_leI mult_Suc_right mult_le_mono2 add.commute)
      then have "b + s * i + s \<le> ?j" unfolding kn by linarith
      then show "step i zs ! ?j = zs ! ?j"
        using \<open>?j < length zs\<close> by (intro frame) simp_all
    qed
    then have "step n ?ys ! ?j = step n xs ! ?j"
      using j lys by (intro loc) simp_all
    with kn show ?thesis by simp
  qed
qed

lemmas fold_upt_block0 = fold_upt_block [where b = 0, simplified]

lemma fold_upt_outside:
  fixes step :: "nat \<Rightarrow> 'a list \<Rightarrow> 'a list"
  assumes len: "\<And>k xs. length (step k xs) = length xs"
    and frame: "\<And>k xs j. j < length xs \<Longrightarrow> j < b + s * k \<or> b + s * k + s \<le> j \<Longrightarrow>
                 step k xs ! j = xs ! j"
    and j: "j < length xs" and out: "j < b \<or> b + s * n \<le> j"
  shows "fold step [0..<n] xs ! j = xs ! j"
proof (rule fold_upt_frame [of step, OF len _ j])
  fix i and zs :: "'a list" assume i: "i < n" and jz: "j < length zs"
  from i have "s * i + s \<le> s * n"
    by (metis Suc_leI mult_Suc_right mult_le_mono2 add.commute)
  with out have "j < b + s * i \<or> b + s * i + s \<le> j" by linarith
  then show "step i zs ! j = zs ! j" using jz by (intro frame) simp_all
qed

section \<open>The registry\<close>

lemma lt_30_cases:
  assumes "k < (30::nat)"
  shows "k \<in> {0,1,2,3,4,5,6,7,8,9,10,11,12,13,14,15,16,17,18,19,20,21,22,23,24,25,26,27,28,29}"
  using assms by simp arith

lemma FORMATS_load_None:
  assumes "k < 30"
  shows "fmt_load (FORMATS sq ! k) = None \<longleftrightarrow> k \<in> {7, 24, 25, 27, 28}"
  using lt_30_cases [OF assms] by (auto simp: FORMATS_def)

lemma FORMATS_save_None:
  assumes "k < 30"
  shows "fmt_save (FORMATS sq ! k) = None \<longleftrightarrow> k \<in> {7, 24, 25, 27, 28}"
  using lt_30_cases [OF assms] by (auto simp: FORMATS_def)

lemma FORMATS_names_plain:
  assumes "k < 30"
  shows "CHR 0x00 \<notin> set (fmt_name (FORMATS sq ! k)) \<and>
         list_all (\<lambda>c. (of_char c :: nat) < 128) (fmt_name (FORMATS sq ! k))"
  using lt_30_cases [OF assms] by (auto simp: FORMATS_def)

lemma strcmp_eq_0_iff:
  "CHR 0x00 \<notin> set xs \<Longrightarrow> CHR 0x00 \<notin> set ys \<Longrightarrow> strcmp xs ys = 0 \<longleftrightarrow> xs = ys"
  by (induction xs ys rule: strcmp.induct) auto

text \<open>
  Claim C9.  For a format whose index lies in \<open>[0, 30)\<close>, \<^verbatim>\<open>load\<close> and \<^verbatim>\<open>save\<close>
  raise \<^verbatim>\<open>NotImplementedError\<close>, with a message that names the format, exactly when
  the registry entry has no function for that direction, and otherwise return what the
  entry's function computes.  The entries without a load function, and those without a
  save function, are exactly the indices 7, 24, 25, 27 and 28, registered under the names
  P8, RGBA16161616F, RGBA16161616, NONE and ATI1N.
\<close>

theorem load_save_dispatch:
  assumes "0 \<le> ind fmt" and "ind fmt < 30"
  shows "load sq fmt pixels data width height =
           (case fmt_load (FORMATS sq ! nat (ind fmt)) of
              None \<Rightarrow> Inl (NotImplementedError (''Loading '' @ name fmt @ '' not implemented!''))
            | Some f \<Rightarrow> Inr (f pixels data width height)) \<and>
         save sq fmt pixels data width height =
           (case fmt_save (FORMATS sq ! nat (ind fmt)) of
              None \<Rightarrow> Inl (NotImplementedError (''Saving '' @ name fmt @ '' not implemented!''))
            | Some f \<Rightarrow> Inr (f pixels data width height)) \<and>
         (fmt_load (FORMATS sq ! nat (ind fmt)) = None \<longleftrightarrow> ind fmt \<in> {7, 24, 25, 27, 28}) \<and>
         (fmt_save (FORMATS sq ! nat (ind fmt)) = None \<longleftrightarrow> ind fmt \<in> {7, 24, 25, 27, 28}) \<and>
         map (\<lambda>i. fmt_name (FORMATS sq ! i)) [7, 24, 25, 27, 28] =
           [''P8'', ''RGBA16161616F'', ''RGBA16161616'', ''NONE'', ''ATI1N'']"
proof -
  from assms have k: "nat (ind fmt) < 30" and rng: "c_int_range (ind fmt)"
    by (auto simp: c_int_range_def)
  have eq: "ind fmt \<in> {7, 24, 25, 27, 28} \<longleftrightarrow> nat (ind fmt) \<in> {7, 24, 25, 27, 28}"
    using assms by auto
  have 1: "load sq fmt pixels data width height =
           (case fmt_load (FORMATS sq ! nat (ind fmt)) of
              None \<Rightarrow> Inl (NotImplementedError (''Loading '' @ name fmt @ '' not implemented!''))
            | Some f \<Rightarrow> Inr (f pixels data width height))"
    using assms rng by (simp add: load_def Let_def split: option.split)
  have 2: "save sq fmt pixels data width height =
           (case fmt_save (FORMATS sq ! nat (ind fmt)) of
              None \<Rightarrow> Inl (NotImplementedError (''Saving '' @ name fmt @ '' not implemented!''))
            | Some f \<Rightarrow> Inr (f pixels data width height))"
    using assms rng by (simp add: save_def Let_def split: option.split)
  have 3: "map (\<lambda>i. fmt_name (FORMATS sq ! i)) [7, 24, 25, 27, 28] =
           [''P8'', ''RGBA16161616F'', ''RGBA16161616'', ''NONE'', ''ATI1N'']"
    by (simp add: FORMATS_def)
  show ?thesis
    using 1 2 3 FORMATS_load_None [OF k, of sq] FORMATS_save_None [OF k, of sq] eq
    by blast
qed

theorem load_save_dispatch_witness:
  "load squish_identity \<lparr>ind = 7, name = ''P8''\<rparr> [1, 2, 3, 4] [5] 1 1 =
     Inl (NotImplementedError ''Loading P8 not implemented!'') \<and>
   save squish_identity \<lparr>ind = 7, name = ''P8''\<rparr> [1, 2, 3, 4] [5] 1 1 =
     Inl (NotImplementedError ''Saving P8 not implemented!'') \<and>
   load squish_identity \<lparr>ind = 12, name = ''BGRA8888''\<rparr> [0, 0, 0, 0] [33, 22, 11, 44] 1 1 =
     Inr [11, 22, 33, 44] \<and>
   save squish_identity \<lparr>ind = 12, name = ''BGRA8888''\<rparr> [11, 22, 33, 44] [0, 0, 0, 0] 1 1 =
     Inr [33, 22, 11, 44]"
  using load_save_dispatch [of "\<lparr>ind = 7, name = ''P8''\<rparr>" squish_identity "[1, 2, 3, 4]" "[5]" 1 1]
    load_save_dispatch [of "\<lparr>ind = 12, name = ''BGRA8888''\<rparr>" squish_identity
      "[0, 0, 0, 0]" "[33, 22, 11, 44]" 1 1]
    load_save_dispatch [of "\<lparr>ind = 12, name = ''BGRA8888''\<rparr>" squish_identity
      "[11, 22, 33, 44]" "[0, 0, 0, 0]" 1 1]
  by (simp add: FORMATS_def load_bgra8888_def save_bgra8888_def prange_def channel_defs)

text \<open>
  Claim C10.  \<^verbatim>\<open>init\<close> checks the entries it is given and nothing else: it succeeds
  exactly when every supplied entry has an index in \<open>[0, 30)\<close> and the name that the
  registry holds at that index, so it succeeds on the empty enumeration and on any
  consistent part of the full one.  Names are compared by \<^verbatim>\<open>strcmp\<close>, which stops at
  a zero byte; the names supplied are taken to contain none, as the names of enum members
  do.  (\<^verbatim>\<open>assert\<close> statements are taken to be enabled.)
\<close>

theorem init_checks_supplied_entries_only:
  assumes "\<forall>fmt \<in> set formats. CHR 0x00 \<notin> set (name fmt)"
  shows "(init sq formats = Inr () \<longleftrightarrow>
           (\<forall>fmt \<in> set formats. 0 \<le> ind fmt \<and> ind fmt < 30 \<and>
                name fmt = fmt_name (FORMATS sq ! nat (ind fmt)))) \<and>
         init sq [] = Inr ()"
proof -
  have "init sq formats = Inr () \<longleftrightarrow>
         (\<forall>fmt \<in> set formats. 0 \<le> ind fmt \<and> ind fmt < 30 \<and>
              name fmt = fmt_name (FORMATS sq ! nat (ind fmt)))"
    using assms
  proof (induction formats)
    case Nil
    show ?case by simp
  next
    case (Cons fmt formats)
    show ?case
    proof (cases "0 \<le> ind fmt \<and> ind fmt < 30")
      case False
      then show ?thesis by (auto simp: Let_def)
    next
      case True
      then have k: "nat (ind fmt) < 30" and rng: "c_int_range (ind fmt)"
        by (auto simp: c_int_range_def)
      note reg = FORMATS_names_plain [OF k, of sq]
      have nul: "CHR 0x00 \<notin> set (name fmt)" using Cons.prems by simp
      show ?thesis
      proof (cases "list_all (\<lambda>c. (of_char c :: nat) < 128) (name fmt)")
        case False
        with reg have "name fmt \<noteq> fmt_name (FORMATS sq ! nat (ind fmt))" by auto
        with False True rng show ?thesis by (simp add: encode_ascii_def Let_def)
      next
        case asc: True
        have "strcmp (name fmt) (fmt_name (FORMATS sq ! nat (ind fmt))) = 0 \<longleftrightarrow>
              name fmt = fmt_name (FORMATS sq ! nat (ind fmt))"
          using strcmp_eq_0_iff nul reg by blast
        with asc True rng Cons show ?thesis by (simp add: encode_ascii_def Let_def)
      qed
    qed
  qed
  then show ?thesis by simp
qed

theorem init_checks_supplied_entries_only_witness:
  "init squish_identity [\<lparr>ind = 0, name = ''RGBA8888''\<rparr>, \<lparr>ind = 29, name = ''ATI2N''\<rparr>] = Inr () \<and>
   init squish_identity [\<lparr>ind = 0, name = ''RGBA8888''\<rparr>, \<lparr>ind = 1, name = ''RGB888''\<rparr>] \<noteq> Inr () \<and>
   init squish_identity [\<lparr>ind = 30, name = ''RGBA8888''\<rparr>] \<noteq> Inr ()"
  using init_checks_supplied_entries_only
      [of "[\<lparr>ind = 0, name = ''RGBA8888''\<rparr>, \<lparr>ind = 29, name = ''ATI2N''\<rparr>]" squish_identity]
    init_checks_supplied_entries_only
      [of "[\<lparr>ind = 0, name = ''RGBA8888''\<rparr>, \<lparr>ind = 1, name = ''RGB888''\<rparr>]" squish_identity]
    init_checks_supplied_entries_only
      [of "[\<lparr>ind = 30, name = ''RGBA8888''\<rparr>]" squish_identity]
  by (simp add: FORMATS_def)

section \<open>Where the packed and block codecs leave the documented behaviour\<close>

text \<open>
  Claim C2.  Saving a pixel as BGRA5551 and loading it again should give alpha 0 for an
  input alpha below 128 and 255 otherwise.  \<^verbatim>\<open>save_bgra5551\<close> stores the alpha bit in
  bit 0 of the second byte (layout \<^verbatim>\<open>BBBBBGGG GGRRRRRA\<close>), while
  \<^verbatim>\<open>load_bgra5551\<close> reads alpha from bit 7 of that byte, where the saver has put bit 1
  of green: an opaque black pixel comes back with alpha 0, and a transparent pixel with
  green 2 comes back with alpha 255.
\<close>

theorem bgra5551_alpha_not_preserved:
  "load_bgra5551 [9, 9, 9, 9] (save_bgra5551 [0, 0, 0, 255] [7, 7] 1 1) 1 1 = [0, 66, 0, 0] \<and>
   load_bgra5551 [9, 9, 9, 9] (save_bgra5551 [0, 2, 0, 0] [7, 7] 1 1) 1 1 = [0, 0, 0, 255]"
  by (simp add: load_bgra5551_def save_bgra5551_def prange_def upsample_def channel_defs)

text \<open>
  Claim C3.  Saving and loading again in a packed format should be idempotent.  For RGB565
  \<^verbatim>\<open>compress565\<close> puts its first argument into the high byte and \<^verbatim>\<open>decomp565\<close>
  reads its first result from the low byte, so one round trip exchanges red and blue: pure
  red comes back as pure blue, and a second round trip gives pure red again.  BGR565 shares
  the two helpers; BGRX5551 and BGRA5551 are saved in one bit layout and loaded in another.
  For each of the four a second round trip of pure red changes the result of the first.
\<close>

theorem rgb565_round_trip_not_idempotent:
  "load_rgb565 (fresh 4) (save_rgb565 [255, 0, 0, 255] (fresh 2) 1 1) 1 1 = [0, 0, 255, 255] \<and>
   load_rgb565 (fresh 4) (save_rgb565 [0, 0, 255, 255] (fresh 2) 1 1) 1 1 = [255, 0, 0, 255] \<and>
   load_bgr565 (fresh 4) (save_bgr565 [255, 0, 0, 255] (fresh 2) 1 1) 1 1 = [0, 0, 255, 255] \<and>
   load_bgr565 (fresh 4) (save_bgr565 [0, 0, 255, 255] (fresh 2) 1 1) 1 1 = [255, 0, 0, 255] \<and>
   load_bgrx5551 (fresh 4) (save_bgrx5551 [255, 0, 0, 255] (fresh 2) 1 1) 1 1 = [123, 132, 0, 255] \<and>
   load_bgrx5551 (fresh 4) (save_bgrx5551 [123, 132, 0, 255] (fresh 2) 1 1) 1 1 = [57, 132, 33, 255] \<and>
   load_bgra5551 (fresh 4) (save_bgra5551 [255, 0, 0, 255] (fresh 2) 1 1) 1 1 = [123, 198, 0, 0] \<and>
   load_bgra5551 (fresh 4) (save_bgra5551 [123, 198, 0, 0] (fresh 2) 1 1) 1 1 = [57, 132, 49, 255]"
  by code_simp

text \<open>Below four pixels in a dimension the block savers leave the encoded buffer as it is.\<close>

lemma save_block_small:
  assumes "width < 4 \<or> height < 4"
  shows "save_dxt1 sq pixels data width height = data \<and>
         save_dxt1_alpha sq pixels data width height = data \<and>
         save_dxt3 sq pixels data width height = data \<and>
         save_dxt5 sq pixels data width height = data \<and>
         save_ati2n sq pixels data width height = data"
  using assms
  by (auto simp: save_dxt1_def save_dxt1_alpha_def save_dxt3_def save_dxt5_def save_ati2n_def)

text \<open>
  Claim C4.  Below four pixels in a dimension the block loaders should write opaque black.
  Each of them assigns offset 2 twice and offset 3 never: the blue byte becomes 255 and the
  alpha byte keeps what the destination held.
\<close>

theorem dxt_small_load_not_opaque_black:
  "load_dxt1 sq [9, 9, 9, 9] data 1 1 = [0, 0, 255, 9] \<and>
   load_dxt1_alpha sq [9, 9, 9, 9] data 1 1 = [0, 0, 255, 9] \<and>
   load_dxt3 sq [9, 9, 9, 9] data 1 1 = [0, 0, 255, 9] \<and>
   load_dxt5 sq [9, 9, 9, 9] data 1 1 = [0, 0, 255, 9] \<and>
   load_ati2n sq [9, 9, 9, 9] data 1 1 = [0, 0, 255, 9]"
  by (simp add: load_dxt1_def load_dxt1_alpha_def load_dxt3_def load_dxt5_def load_ati2n_def
      prange_def range_step_def)

text \<open>
  Claim C5.  Loading A8 should set red, green and blue of every pixel to 0.  The
  \<^verbatim>\<open>memset\<close> of \<^verbatim>\<open>load_a8\<close> clears \<open>width * height\<close> bytes, a quarter of the
  buffer, and the loop writes the alpha bytes only: the colour bytes behind that quarter
  keep what the destination held.
\<close>

theorem load_a8_leaves_colour_bytes:
  "load_a8 [9, 9, 9, 9] [7] 1 1 = [0, 9, 9, 7] \<and>
   load_a8 [9, 9, 9, 9, 9, 9, 9, 9] [7, 8] 2 1 = [0, 0, 9, 7, 9, 9, 9, 8]"
  by code_simp

section \<open>What the codecs leave at each pixel\<close>

lemma lt4_cases: "c < (4::nat) \<Longrightarrow> c = 0 \<or> c = 1 \<or> c = 2 \<or> c = 3" by arith
lemma lt3_cases: "c < (3::nat) \<Longrightarrow> c = 0 \<or> c = 1 \<or> c = 2" by arith
lemma lt2_cases: "c < (2::nat) \<Longrightarrow> c = 0 \<or> c = 1" by arith

lemma length_load_bgra8888 [simp]:
  "length (load_bgra8888 pixels data width height) = length pixels"
  unfolding load_bgra8888_def prange_def by (rule fold_upt_length) (simp add: Let_def)

lemma load_bgra8888_px:
  assumes "k < unat (width * height)" "c < 4" "4 * k + c < length pixels"
  shows "load_bgra8888 pixels data width height ! (4 * k + c) =
         [data ! (4 * k + 2), data ! (4 * k + 1), data ! (4 * k), data ! (4 * k + 3)] ! c"
  unfolding load_bgra8888_def prange_def
  using assms lt4_cases [OF assms(2)]
  by (subst fold_upt_block0 [where s = 4]) (auto simp: nth_list_update_if channel_defs Let_def)

lemma length_load_argb8888 [simp]:
  "length (load_argb8888 pixels data width height) = length pixels"
  unfolding load_argb8888_def prange_def by (rule fold_upt_length) (simp add: Let_def)

lemma load_argb8888_px:
  assumes "k < unat (width * height)" "c < 4" "4 * k + c < length pixels"
  shows "load_argb8888 pixels data width height ! (4 * k + c) =
         [data ! (4 * k + 3), data ! (4 * k), data ! (4 * k + 1), data ! (4 * k + 2)] ! c"
  unfolding load_argb8888_def prange_def
  using assms lt4_cases [OF assms(2)]
  by (subst fold_upt_block0 [where s = 4]) (auto simp: nth_list_update_if channel_defs Let_def)

lemma length_load_abgr8888 [simp]:
  "length (load_abgr8888 pixels data width height) = length pixels"
  unfolding load_abgr8888_def prange_def by (rule fold_upt_length) (simp add: Let_def)

lemma load_abgr8888_px:
  assumes "k < unat (width * height)" "c < 4" "4 * k + c < length pixels"
  shows "load_abgr8888 pixels data width height ! (4 * k + c) =
         [data ! (4 * k + 3), data ! (4 * k + 2), data ! (4 * k + 1), data ! (4 * k)] ! c"
  unfolding load_abgr8888_def prange_def
  using assms lt4_cases [OF assms(2)]
  by (subst fold_upt_block0 [where s = 4]) (auto simp: nth_list_update_if channel_defs Let_def)

lemma length_load_rgb888 [simp]:
  "length (load_rgb888 pixels data width height) = length pixels"
  unfolding load_rgb888_def prange_def by (rule fold_upt_length) (simp add: Let_def)

lemma load_rgb888_px:
  assumes "k < unat (width * height)" "c < 4" "4 * k + c < length pixels"
  shows "load_rgb888 pixels data width height ! (4 * k + c) =
         [data ! (3 * k), data ! (3 * k + 1), data ! (3 * k + 2), 255] ! c"
  unfolding load_rgb888_def prange_def
  using assms lt4_cases [OF assms(2)]
  by (subst fold_upt_block0 [where s = 4]) (auto simp: nth_list_update_if channel_defs Let_def)

lemma length_load_bgr888 [simp]:
  "length (load_bgr888 pixels data width height) = length pixels"
  unfolding load_bgr888_def prange_def by (rule fold_upt_length) (simp add: Let_def)

lemma load_bgr888_px:
  assumes "k < unat (width * height)" "c < 4" "4 * k + c < length pixels"
  shows "load_bgr888 pixels data width height ! (4 * k + c) =
         [data ! (3 * k + 2), data ! (3 * k + 1), data ! (3 * k), 255] ! c"
  unfolding load_bgr888_def prange_def
  using assms lt4_cases [OF assms(2)]
  by (subst fold_upt_block0 [where s = 4]) (auto simp: nth_list_update_if channel_defs Let_def)

lemma length_load_bgrx8888 [simp]:
  "length (load_bgrx8888 pixels data width height) = length pixels"
  unfolding load_bgrx8888_def prange_def by (rule fold_upt_length) (simp add: Let_def)

lemma load_bgrx8888_px:
  assumes "k < unat (width * height)" "c < 4" "4 * k + c < length pixels"
  shows "load_bgrx8888 pixels data width height ! (4 * k + c) =
         [data ! (4 * k + 2), data ! (4 * k + 1), data ! (4 * k), 255] ! c"
  unfolding load_bgrx8888_def prange_def
  using assms lt4_cases [OF assms(2)]
  by (subst fold_upt_block0 [where s = 4]) (auto simp: nth_list_update_if channel_defs Let_def)

lemma length_load_ia88 [simp]:
  "length (load_ia88 pixels data width height) = length pixels"
  unfolding load_ia88_def prange_def by (rule fold_upt_length) (simp add: Let_def)

lemma load_ia88_px:
  assumes "k < unat (width * height)" "c < 4" "4 * k + c < length pixels"
  shows "load_ia88 pixels data width height ! (4 * k + c) =
         [data ! (2 * k), data ! (2 * k), data ! (2 * k), data ! (2 * k + 1)] ! c"
  unfolding load_ia88_def prange_def
  using assms lt4_cases [OF assms(2)]
  by (subst fold_upt_block0 [where s = 4]) (auto simp: nth_list_update_if channel_defs Let_def)

lemma length_load_uv88 [simp]:
  "length (load_uv88 pixels data width height) = length pixels"
  unfolding load_uv88_def prange_def by (rule fold_upt_length) (simp add: Let_def)

lemma load_uv88_px:
  assumes "k < unat (width * height)" "c < 4" "4 * k + c < length pixels"
  shows "load_uv88 pixels data width height ! (4 * k + c) =
         [data ! (2 * k), data ! (2 * k + 1), 0, 255] ! c"
  unfolding load_uv88_def prange_def
  using assms lt4_cases [OF assms(2)]
  by (subst fold_upt_block0 [where s = 4]) (auto simp: nth_list_update_if channel_defs Let_def)

lemma length_save_bgra8888 [simp]:
  "length (save_bgra8888 pixels data width height) = length data"
  unfolding save_bgra8888_def prange_def by (rule fold_upt_length) (simp add: Let_def)

lemma save_bgra8888_px:
  assumes "k < unat (width * height)" "c < 4" "4 * k + c < length data"
  shows "save_bgra8888 pixels data width height ! (4 * k + c) =
         [pixels ! (4 * k + 2), pixels ! (4 * k + 1), pixels ! (4 * k), pixels ! (4 * k + 3)] ! c"
  unfolding save_bgra8888_def prange_def
  using assms lt4_cases [OF assms(2)]
  by (subst fold_upt_block0 [where s = 4]) (auto simp: nth_list_update_if channel_defs Let_def)

lemma length_save_argb8888 [simp]:
  "length (save_argb8888 pixels data width height) = length data"
  unfolding save_argb8888_def prange_def by (rule fold_upt_length) (simp add: Let_def)

lemma save_argb8888_px:
  assumes "k < unat (width * height)" "c < 4" "4 * k + c < length data"
  shows "save_argb8888 pixels data width height ! (4 * k + c) =
         [pixels ! (4 * k + 1), pixels ! (4 * k + 2), pixels ! (4 * k + 3), pixels ! (4 * k)] ! c"
  unfolding save_argb8888_def prange_def
  using assms lt4_cases [OF assms(2)]
  by (subst fold_upt_block0 [where s = 4]) (auto simp: nth_list_update_if channel_defs Let_def)

lemma length_save_abgr8888 [simp]:
  "length (save_abgr8888 pixels data width height) = length data"
  unfolding save_abgr8888_def prange_def by (rule fold_upt_length) (simp add: Let_def)

lemma save_abgr8888_px:
  assumes "k < unat (width * height)" "c < 4" "4 * k + c < length data"
  shows "save_abgr8888 pixels data width height ! (4 * k + c) =
         [pixels ! (4 * k + 3), pixels ! (4 * k + 2), pixels ! (4 * k + 1), pixels ! (4 * k)] ! c"
  unfolding save_abgr8888_def prange_def
  using assms lt4_cases [OF assms(2)]
  by (subst fold_upt_block0 [where s = 4]) (auto simp: nth_list_update_if channel_defs Let_def)

lemma length_save_rgb888 [simp]:
  "length (save_rgb888 pixels data width height) = length data"
  unfolding save_rgb888_def prange_def by (rule fold_upt_length) (simp add: Let_def)

lemma save_rgb888_px:
  assumes "k < unat (width * height)" "c < 3" "3 * k + c < length data"
  shows "save_rgb888 pixels data width height ! (3 * k + c) =
         [pixels ! (4 * k), pixels ! (4 * k + 1), pixels ! (4 * k + 2)] ! c"
  unfolding save_rgb888_def prange_def
  using assms lt3_cases [OF assms(2)]
  by (subst fold_upt_block0 [where s = 3]) (auto simp: nth_list_update_if channel_defs Let_def)

lemma length_save_bgr888 [simp]:
  "length (save_bgr888 pixels data width height) = length data"
  unfolding save_bgr888_def prange_def by (rule fold_upt_length) (simp add: Let_def)

lemma save_bgr888_px:
  assumes "k < unat (width * height)" "c < 3" "3 * k + c < length data"
  shows "save_bgr888 pixels data width height ! (3 * k + c) =
         [pixels ! (4 * k + 2), pixels ! (4 * k + 1), pixels ! (4 * k)] ! c"
  unfolding save_bgr888_def prange_def
  using assms lt3_cases [OF assms(2)]
  by (subst fold_upt_block0 [where s = 3]) (auto simp: nth_list_update_if channel_defs Let_def)

lemma length_save_bgrx8888 [simp]:
  "length (save_bgrx8888 pixels data width height) = length data"
  unfolding save_bgrx8888_def prange_def by (rule fold_upt_length) (simp add: Let_def)

lemma save_bgrx8888_px:
  assumes "k < unat (width * height)" "c < 4" "4 * k + c < length data"
  shows "save_bgrx8888 pixels data width height ! (4 * k + c) =
         [pixels ! (4 * k + 2), pixels ! (4 * k + 1), pixels ! (4 * k), 0] ! c"
  unfolding save_bgrx8888_def prange_def
  using assms lt4_cases [OF assms(2)]
  by (subst fold_upt_block0 [where s = 4]) (auto simp: nth_list_update_if channel_defs Let_def)

lemma length_save_ia88 [simp]:
  "length (save_ia88 pixels data width height) = length data"
  unfolding save_ia88_def prange_def by (rule fold_upt_length) (simp add: Let_def)

lemma save_ia88_px:
  assumes "k < unat (width * height)" "c < 2" "2 * k + c < length data"
  shows "save_ia88 pixels data width height ! (2 * k + c) =
         [of_nat ((unat (pixels ! (4 * k)) + unat (pixels ! (4 * k + 1)) + unat (pixels ! (4 * k + 2))) div 3),
          pixels ! (4 * k + 3)] ! c"
  unfolding save_ia88_def prange_def
  using assms lt2_cases [OF assms(2)]
  by (subst fold_upt_block0 [where s = 2]) (auto simp: nth_list_update_if channel_defs Let_def)

lemma length_save_uv88 [simp]:
  "length (save_uv88 pixels data width height) = length data"
  unfolding save_uv88_def prange_def by (rule fold_upt_length) (simp add: Let_def)

lemma save_uv88_px:
  assumes "k < unat (width * height)" "c < 2" "2 * k + c < length data"
  shows "save_uv88 pixels data width height ! (2 * k + c) =
         [pixels ! (4 * k), pixels ! (4 * k + 1)] ! c"
  unfolding save_uv88_def prange_def
  using assms lt2_cases [OF assms(2)]
  by (subst fold_upt_block0 [where s = 2]) (auto simp: nth_list_update_if channel_defs Let_def)

lemma length_load_a8:
  "unat (width * height) \<le> length pixels \<Longrightarrow>
   length (load_a8 pixels data width height) = length pixels"
  unfolding load_a8_def prange_def by (subst fold_upt_length) (simp_all add: memset_def)

lemma length_save_a8 [simp]:
  "length (save_a8 pixels data width height) = length data"
  unfolding save_a8_def prange_def by (rule fold_upt_length) simp

lemma save_a8_px:
  assumes "k < unat (width * height)" "k < length data"
  shows "save_a8 pixels data width height ! k = pixels ! (4 * k + 3)"
  unfolding save_a8_def prange_def
  using assms
  by (subst fold_upt_block [where b = 0 and s = 1 and c = 0, simplified])
     (auto simp: nth_list_update_if channel_defs)

lemma load_a8_px:
  assumes "k < unat (width * height)" "c < 4" "4 * k + c < length pixels"
  shows "load_a8 pixels data width height ! (4 * k + c) =
         (if c = 3 then data ! k else memset pixels 0 (unat (width * height)) ! (4 * k + c))"
  unfolding load_a8_def prange_def
  using assms lt4_cases [OF assms(2)]
  by (subst fold_upt_block0 [where s = 4]) (auto simp: nth_list_update_if channel_defs memset_def)

section \<open>Round trips of the lossless formats\<close>

lemma div_mod_4:
  assumes "j < 4 * n"
  obtains k c where "j = 4 * k + c" "c < 4" "k < (n::nat)"
proof
  show "j = 4 * (j div 4) + j mod 4" by simp
  show "j mod 4 < 4" by simp
  show "j div 4 < n" using assms by simp
qed

lemma avg3_same: "word_of_nat ((unat x + unat x + unat x) div 3) = (x::byte)"
proof -
  have "(unat x + unat x + unat x) div 3 = unat x" by arith
  then show ?thesis by simp
qed

lemma roundtrip_bgra8888:
  assumes n: "unat (width * height) = n"
    and len: "length pixels = 4 * n" "length data = 4 * n" "length dst = 4 * n"
  shows "load_bgra8888 dst (save_bgra8888 pixels data width height) width height = pixels"
    (is "?back = pixels")
proof (rule nth_equalityI)
  show "length ?back = length pixels"
    using len by simp
next
  fix j assume "j < length ?back"
  then have "j < 4 * n" using len by simp
  then obtain k c where kc: "j = 4 * k + c" "c < 4" "k < n" by (rule div_mod_4)
  have S: "\<And>c. c < 4 \<Longrightarrow> save_bgra8888 pixels data width height ! (4 * k + c) =
         [pixels ! (4 * k + 2), pixels ! (4 * k + 1), pixels ! (4 * k), pixels ! (4 * k + 3)] ! c"
    using kc n len by (intro save_bgra8888_px) simp_all
  have "?back ! (4 * k + c) = pixels ! (4 * k + c)"
    using lt4_cases [OF kc(2)] kc n len S [of 0] S [of 1] S [of 2] S [of 3]
    by (subst load_bgra8888_px) auto
  then show "?back ! j = pixels ! j"
    using kc by simp
qed

lemma roundtrip_argb8888:
  assumes n: "unat (width * height) = n"
    and len: "length pixels = 4 * n" "length data = 4 * n" "length dst = 4 * n"
  shows "load_argb8888 dst (save_argb8888 pixels data width height) width height = pixels"
    (is "?back = pixels")
proof (rule nth_equalityI)
  show "length ?back = length pixels"
    using len by simp
next
  fix j assume "j < length ?back"
  then have "j < 4 * n" using len by simp
  then obtain k c where kc: "j = 4 * k + c" "c < 4" "k < n" by (rule div_mod_4)
  have S: "\<And>c. c < 4 \<Longrightarrow> save_argb8888 pixels data width height ! (4 * k + c) =
         [pixels ! (4 * k + 1), pixels ! (4 * k + 2), pixels ! (4 * k + 3), pixels ! (4 * k)] ! c"
    using kc n len by (intro save_argb8888_px) simp_all
  have "?back ! (4 * k + c) = pixels ! (4 * k + c)"
    using lt4_cases [OF kc(2)] kc n len S [of 0] S [of 1] S [of 2] S [of 3]
    by (subst load_argb8888_px) auto
  then show "?back ! j = pixels ! j"
    using kc by simp
qed

lemma roundtrip_abgr8888:
  assumes n: "unat (width * height) = n"
    and len: "length pixels = 4 * n" "length data = 4 * n" "length dst = 4 * n"
  shows "load_abgr8888 dst (save_abgr8888 pixels data width height) width height = pixels"
    (is "?back = pixels")
proof (rule nth_equalityI)
  show "length ?back = length pixels"
    using len by simp
next
  fix j assume "j < length ?back"
  then have "j < 4 * n" using len by simp
  then obtain k c where kc: "j = 4 * k + c" "c < 4" "k < n" by (rule div_mod_4)
  have S: "\<And>c. c < 4 \<Longrightarrow> save_abgr8888 pixels data width height ! (4 * k + c) =
         [pixels ! (4 * k + 3), pixels ! (4 * k + 2), pixels ! (4 * k + 1), pixels ! (4 * k)] ! c"
    using kc n len by (intro save_abgr8888_px) simp_all
  have "?back ! (4 * k + c) = pixels ! (4 * k + c)"
    using lt4_cases [OF kc(2)] kc n len S [of 0] S [of 1] S [of 2] S [of 3]
    by (subst load_abgr8888_px) auto
  then show "?back ! j = pixels ! j"
    using kc by simp
qed

lemma roundtrip_rgb888:
  assumes n: "unat (width * height) = n"
    and len: "length pixels = 4 * n" "length data = 3 * n" "length dst = 4 * n"
    and rep: "\<And>k. k < n \<Longrightarrow> pixels ! (4 * k + 3) = 255"
  shows "load_rgb888 dst (save_rgb888 pixels data width height) width height = pixels"
    (is "?back = pixels")
proof (rule nth_equalityI)
  show "length ?back = length pixels"
    using len by simp
next
  fix j assume "j < length ?back"
  then have "j < 4 * n" using len by simp
  then obtain k c where kc: "j = 4 * k + c" "c < 4" "k < n" by (rule div_mod_4)
  have S: "\<And>c. c < 3 \<Longrightarrow> save_rgb888 pixels data width height ! (3 * k + c) =
         [pixels ! (4 * k), pixels ! (4 * k + 1), pixels ! (4 * k + 2)] ! c"
    using kc n len by (intro save_rgb888_px) simp_all
  have "?back ! (4 * k + c) = pixels ! (4 * k + c)"
    using lt4_cases [OF kc(2)] kc n len S [of 0] S [of 1] S [of 2] rep [of k]
    by (subst load_rgb888_px) auto
  then show "?back ! j = pixels ! j"
    using kc by simp
qed

lemma roundtrip_bgr888:
  assumes n: "unat (width * height) = n"
    and len: "length pixels = 4 * n" "length data = 3 * n" "length dst = 4 * n"
    and rep: "\<And>k. k < n \<Longrightarrow> pixels ! (4 * k + 3) = 255"
  shows "load_bgr888 dst (save_bgr888 pixels data width height) width height = pixels"
    (is "?back = pixels")
proof (rule nth_equalityI)
  show "length ?back = length pixels"
    using len by simp
next
  fix j assume "j < length ?back"
  then have "j < 4 * n" using len by simp
  then obtain k c where kc: "j = 4 * k + c" "c < 4" "k < n" by (rule div_mod_4)
  have S: "\<And>c. c < 3 \<Longrightarrow> save_bgr888 pixels data width height ! (3 * k + c) =
         [pixels ! (4 * k + 2), pixels ! (4 * k + 1), pixels ! (4 * k)] ! c"
    using kc n len by (intro save_bgr888_px) simp_all
  have "?back ! (4 * k + c) = pixels ! (4 * k + c)"
    using lt4_cases [OF kc(2)] kc n len S [of 0] S [of 1] S [of 2] rep [of k]
    by (subst load_bgr888_px) auto
  then show "?back ! j = pixels ! j"
    using kc by simp
qed

lemma roundtrip_bgrx8888:
  assumes n: "unat (width * height) = n"
    and len: "length pixels = 4 * n" "length data = 4 * n" "length dst = 4 * n"
    and rep: "\<And>k. k < n \<Longrightarrow> pixels ! (4 * k + 3) = 255"
  shows "load_bgrx8888 dst (save_bgrx8888 pixels data width height) width height = pixels"
    (is "?back = pixels")
proof (rule nth_equalityI)
  show "length ?back = length pixels"
    using len by simp
next
  fix j assume "j < length ?back"
  then have "j < 4 * n" using len by simp
  then obtain k c where kc: "j = 4 * k + c" "c < 4" "k < n" by (rule div_mod_4)
  have S: "\<And>c. c < 4 \<Longrightarrow> save_bgrx8888 pixels data width height ! (4 * k + c) =
         [pixels ! (4 * k + 2), pixels ! (4 * k + 1), pixels ! (4 * k), 0] ! c"
    using kc n len by (intro save_bgrx8888_px) simp_all
  have "?back ! (4 * k + c) = pixels ! (4 * k + c)"
    using lt4_cases [OF kc(2)] kc n len S [of 0] S [of 1] S [of 2] S [of 3] rep [of k]
    by (subst load_bgrx8888_px) auto
  then show "?back ! j = pixels ! j"
    using kc by simp
qed

lemma roundtrip_ia88:
  assumes n: "unat (width * height) = n"
    and len: "length pixels = 4 * n" "length data = 2 * n" "length dst = 4 * n"
    and rep: "\<And>k. k < n \<Longrightarrow> pixels ! (4 * k) = pixels ! (4 * k + 1) \<and> pixels ! (4 * k + 1) = pixels ! (4 * k + 2)"
  shows "load_ia88 dst (save_ia88 pixels data width height) width height = pixels"
    (is "?back = pixels")
proof (rule nth_equalityI)
  show "length ?back = length pixels"
    using len by simp
next
  fix j assume "j < length ?back"
  then have "j < 4 * n" using len by simp
  then obtain k c where kc: "j = 4 * k + c" "c < 4" "k < n" by (rule div_mod_4)
  have S: "\<And>c. c < 2 \<Longrightarrow> save_ia88 pixels data width height ! (2 * k + c) =
         [of_nat ((unat (pixels ! (4 * k)) + unat (pixels ! (4 * k + 1)) + unat (pixels ! (4 * k + 2))) div 3),
          pixels ! (4 * k + 3)] ! c"
    using kc n len by (intro save_ia88_px) simp_all
  have "?back ! (4 * k + c) = pixels ! (4 * k + c)"
    using lt4_cases [OF kc(2)] kc n len S [of 0] S [of 1] rep [of k]
    by (subst load_ia88_px) (auto simp: avg3_same)
  then show "?back ! j = pixels ! j"
    using kc by simp
qed

lemma roundtrip_uv88:
  assumes n: "unat (width * height) = n"
    and len: "length pixels = 4 * n" "length data = 2 * n" "length dst = 4 * n"
    and rep: "\<And>k. k < n \<Longrightarrow> pixels ! (4 * k + 2) = 0 \<and> pixels ! (4 * k + 3) = 255"
  shows "load_uv88 dst (save_uv88 pixels data width height) width height = pixels"
    (is "?back = pixels")
proof (rule nth_equalityI)
  show "length ?back = length pixels"
    using len by simp
next
  fix j assume "j < length ?back"
  then have "j < 4 * n" using len by simp
  then obtain k c where kc: "j = 4 * k + c" "c < 4" "k < n" by (rule div_mod_4)
  have S: "\<And>c. c < 2 \<Longrightarrow> save_uv88 pixels data width height ! (2 * k + c) =
         [pixels ! (4 * k), pixels ! (4 * k + 1)] ! c"
    using kc n len by (intro save_uv88_px) simp_all
  have "?back ! (4 * k + c) = pixels ! (4 * k + c)"
    using lt4_cases [OF kc(2)] kc n len S [of 0] S [of 1] rep [of k]
    by (subst load_uv88_px) auto
  then show "?back ! j = pixels ! j"
    using kc by simp
qed

lemma roundtrip_a8:
  assumes n: "unat (width * height) = n"
    and len: "length pixels = 4 * n" "length data = n"
    and rep: "\<And>k. k < n \<Longrightarrow> pixels ! (4 * k) = 0 \<and> pixels ! (4 * k + 1) = 0 \<and> pixels ! (4 * k + 2) = 0"
  shows "load_a8 (fresh (4 * n)) (save_a8 pixels data width height) width height = pixels"
proof (rule nth_equalityI)
  show "length (load_a8 (fresh (4 * n)) (save_a8 pixels data width height) width height) = length pixels"
    using len n by (simp add: length_load_a8 fresh_def)
next
  fix j assume "j < length (load_a8 (fresh (4 * n)) (save_a8 pixels data width height) width height)"
  then have "j < 4 * n" using len n by (simp add: length_load_a8 fresh_def)
  then obtain k c where kc: "j = 4 * k + c" "c < 4" "k < n" by (rule div_mod_4)
  have S: "save_a8 pixels data width height ! k = pixels ! (4 * k + 3)"
    using kc n len by (intro save_a8_px) simp_all
  have M: "memset (fresh (4 * n)) 0 n = replicate (4 * n) 0"
    by (simp add: memset_def fresh_def replicate_add [symmetric])
  have "load_a8 (fresh (4 * n)) (save_a8 pixels data width height) width height ! (4 * k + c) =
        pixels ! (4 * k + c)"
    using lt4_cases [OF kc(2)] kc n len S M rep [of k]
    by (subst load_a8_px) (auto simp: fresh_def)
  then show "load_a8 (fresh (4 * n)) (save_a8 pixels data width height) width height ! j = pixels ! j"
    using kc by simp
qed


text \<open>
  The byte count of the copying codecs is the \<^verbatim>\<open>unsigned int\<close> product
  \<open>4 * width * height\<close>.  At 32768 by 32768 pixels it is \<open>2 ^ 32\<close>, which wraps to 0, and
  nothing is copied; the pixel count \<open>width * height\<close> of the loops wraps in the same way
  from 65536 by 65536 on.  The theorems on whole images are therefore stated for canonical
  buffers of fewer than \<open>2 ^ 32\<close> bytes.
\<close>

lemma load_copy_wraps: "load_copy pixels data 32768 32768 = pixels"
  by (simp add: load_copy_def memcpy_def)

lemma roundtrip_copy:
  assumes "unat (4 * width * height) = length pixels"
    and "length data = length pixels" "length dst = length pixels"
  shows "load_copy dst (save_copy pixels data width height) width height = pixels"
  using assms by (simp add: load_copy_def save_copy_def memcpy_def)

lemma unat_dims:
  fixes width height :: uint
  assumes "4 * (unat width * unat height) < 2 ^ 32"
  shows "unat (width * height) = unat width * unat height"
    and "unat (4 * width * height) = 4 * (unat width * unat height)"
    and "unat (3 * width * height) = 3 * (unat width * unat height)"
proof -
  define m where "m = unat width * unat height"
  with assms have m4: "4 * m < 2 ^ 32" by simp
  then have "m < 2 ^ LENGTH(32)" by simp
  then have "unat width * unat height < 2 ^ LENGTH(32)" by (simp only: m_def)
  then have "unat (width * height) = unat width * unat height"
    by (simp only: unat_mult_lem)
  then have wh: "unat (width * height) = m" by (simp only: m_def)
  from m4 wh have "unat (4 :: uint) * unat (width * height) < 2 ^ LENGTH(32)" by simp
  then have "unat (4 * (width * height)) = unat (4 :: uint) * unat (width * height)"
    by (simp only: unat_mult_lem)
  with wh have 4: "unat (4 * width * height) = 4 * m" by (simp add: mult.assoc)
  from m4 wh have "unat (3 :: uint) * unat (width * height) < 2 ^ LENGTH(32)" by simp
  then have "unat (3 * (width * height)) = unat (3 :: uint) * unat (width * height)"
    by (simp only: unat_mult_lem)
  with wh have 3: "unat (3 * width * height) = 3 * m" by (simp add: mult.assoc)
  from wh 4 3 show "unat (width * height) = unat width * unat height"
    and "unat (4 * width * height) = 4 * (unat width * unat height)"
    and "unat (3 * width * height) = 3 * (unat width * unat height)"
    by (simp_all only: m_def)
qed

lemma representable_nth:
  assumes "representable tag pixels" "length pixels = 4 * n" "k < n"
  shows "(tag \<in> {16, 2, 3} \<longrightarrow> pixels ! (4 * k + 3) = 255) \<and>
         (tag = 22 \<longrightarrow> pixels ! (4 * k + 2) = 0 \<and> pixels ! (4 * k + 3) = 255) \<and>
         (tag = 8 \<longrightarrow> pixels ! (4 * k) = 0 \<and> pixels ! (4 * k + 1) = 0 \<and> pixels ! (4 * k + 2) = 0) \<and>
         (tag = 6 \<longrightarrow> pixels ! (4 * k) = pixels ! (4 * k + 1) \<and>
                    pixels ! (4 * k + 1) = pixels ! (4 * k + 2))"
  using assms by (simp add: representable_def list_all_iff channel_defs)

text \<open>
  Claim C1.  For each of the formats RGBA8888, BGRA8888, ABGR8888, ARGB8888, BGRX8888,
  RGB888, BGR888, UV88, A8, IA88, UVWQ8888 and UVLX8888 and every canonical buffer of
  \<open>4 * W * H\<close> bytes that the format can represent, \<^verbatim>\<open>save\<close> followed by
  \<^verbatim>\<open>load\<close> into a fresh destination gives back the canonical buffer, byte for byte.
  The encoded buffer that \<^verbatim>\<open>save\<close> fills may hold anything before.  For every format
  but A8 the same is true of the destination of \<^verbatim>\<open>load\<close>; for A8 the destination
  is the fresh, zero-filled buffer (\<^verbatim>\<open>load_a8\<close> writes the alpha bytes and clears
  the first quarter of the buffer only).  The buffer is smaller than \<open>2 ^ 32\<close> bytes,
  the range in which the source's \<^verbatim>\<open>unsigned int\<close> products do not wrap.
\<close>

theorem lossless_round_trip:
  assumes fmt: "ind fmt \<in> lossless_formats"
    and size: "4 * (unat width * unat height) < 2 ^ 32"
    and pixels: "length pixels = 4 * (unat width * unat height)"
    and rep: "representable (ind fmt) pixels"
    and data: "length data = bytes_per_pixel (ind fmt) * (unat width * unat height)"
    and dst: "length dst = 4 * (unat width * unat height)"
    and fresh: "ind fmt = 8 \<longrightarrow> dst = fresh (4 * (unat width * unat height))"
  shows "\<exists>encoded. save sq fmt pixels data width height = Inr encoded \<and>
           load sq fmt dst encoded width height = Inr pixels"
proof -
  let ?n = "unat width * unat height"
  note n = unat_dims(1) [OF size]
  note R = representable_nth [OF rep pixels]
  from fmt consider "ind fmt = 0" | "ind fmt = 1" | "ind fmt = 2" | "ind fmt = 3" | "ind fmt = 6"
    | "ind fmt = 8" | "ind fmt = 11" | "ind fmt = 12" | "ind fmt = 16" | "ind fmt = 22"
    | "ind fmt = 23" | "ind fmt = 26"
    by (auto simp: lossless_formats_def)
  then show ?thesis
  proof cases
    case 1
    then show ?thesis
      using roundtrip_copy [of width height pixels data dst] unat_dims(2) [OF size] pixels data dst
      by (simp add: load_def save_def FORMATS_def c_int_range_def bytes_per_pixel_def)
  next
    case 2
    then show ?thesis
      using roundtrip_abgr8888 [OF n, of pixels data dst] pixels data dst
      by (simp add: load_def save_def FORMATS_def c_int_range_def bytes_per_pixel_def)
  next
    case 3
    then show ?thesis
      using roundtrip_rgb888 [OF n, of pixels data dst] pixels data dst R
      by (simp add: load_def save_def FORMATS_def c_int_range_def bytes_per_pixel_def)
  next
    case 4
    then show ?thesis
      using roundtrip_bgr888 [OF n, of pixels data dst] pixels data dst R
      by (simp add: load_def save_def FORMATS_def c_int_range_def bytes_per_pixel_def)
  next
    case 5
    then show ?thesis
      using roundtrip_ia88 [OF n, of pixels data dst] pixels data dst R
      by (simp add: load_def save_def FORMATS_def c_int_range_def bytes_per_pixel_def)
  next
    case 6
    then show ?thesis
      using roundtrip_a8 [OF n, of pixels data] pixels data dst R fresh
      by (simp add: load_def save_def FORMATS_def c_int_range_def bytes_per_pixel_def)
  next
    case 7
    then show ?thesis
      using roundtrip_argb8888 [OF n, of pixels data dst] pixels data dst
      by (simp add: load_def save_def FORMATS_def c_int_range_def bytes_per_pixel_def)
  next
    case 8
    then show ?thesis
      using roundtrip_bgra8888 [OF n, of pixels data dst] pixels data dst
      by (simp add: load_def save_def FORMATS_def c_int_range_def bytes_per_pixel_def)
  next
    case 9
    then show ?thesis
      using roundtrip_bgrx8888 [OF n, of pixels data dst] pixels data dst R
      by (simp add: load_def save_def FORMATS_def c_int_range_def bytes_per_pixel_def)
  next
    case 10
    then show ?thesis
      using roundtrip_uv88 [OF n, of pixels data dst] pixels data dst R
      by (simp add: load_def save_def FORMATS_def c_int_range_def bytes_per_pixel_def)
  next
    case 11
    then show ?thesis
      using roundtrip_copy [of width height pixels data dst] unat_dims(2) [OF size] pixels data dst
      by (simp add: load_def save_def FORMATS_def c_int_range_def bytes_per_pixel_def)
  next
    case 12
    then show ?thesis
      using roundtrip_copy [of width height pixels data dst] unat_dims(2) [OF size] pixels data dst
      by (simp add: load_def save_def FORMATS_def c_int_range_def bytes_per_pixel_def)
  qed
qed

theorem lossless_round_trip_witness:
  "load squish_identity \<lparr>ind = 8, name = ''A8''\<rparr> (fresh 8) [7, 8] 2 1 = Inr [0, 0, 0, 7, 0, 0, 0, 8]"
proof -
  let ?fmt = "\<lparr>ind = 8, name = ''A8''\<rparr>"
  let ?pixels = "[0, 0, 0, 7, 0, 0, 0, 8] :: byte list"
  have saved: "save squish_identity ?fmt ?pixels [1, 1] 2 1 = Inr [7, 8]"
    by code_simp
  have "ind ?fmt \<in> lossless_formats"
    by (simp add: lossless_formats_def)
  moreover have "4 * (unat (2 :: uint) * unat (1 :: uint)) < 2 ^ 32"
    by simp
  moreover have "length ?pixels = 4 * (unat (2 :: uint) * unat (1 :: uint))"
    by simp
  moreover have "representable (ind ?fmt) ?pixels"
    by code_simp
  moreover have "length [1, 1 :: byte] = bytes_per_pixel (ind ?fmt) * (unat (2 :: uint) * unat (1 :: uint))"
    by (simp add: bytes_per_pixel_def)
  moreover have "length (fresh 8) = 4 * (unat (2 :: uint) * unat (1 :: uint))"
    by (simp add: fresh_def)
  moreover have "ind ?fmt = 8 \<longrightarrow> fresh 8 = fresh (4 * (unat (2 :: uint) * unat (1 :: uint)))"
    by simp
  ultimately have "\<exists>encoded. save squish_identity ?fmt ?pixels [1, 1] 2 1 = Inr encoded \<and>
      load squish_identity ?fmt (fresh 8) encoded 2 1 = Inr ?pixels"
    by (rule lossless_round_trip)
  with saved show ?thesis by simp
qed

section \<open>The bluescreen formats\<close>

lemma load_bgr888_bluescreen_px:
  assumes "k < unat (width * height)" "c < 4" "4 * k + c < length pixels"
  shows "load_bgr888_bluescreen pixels data width height ! (4 * k + c) =
         (if data ! (3 * k + 2) = 0 \<and> data ! (3 * k + 1) = 0 \<and> data ! (3 * k) = 255 then 0
          else [data ! (3 * k + 2), data ! (3 * k + 1), data ! (3 * k), 255] ! c)"
  unfolding load_bgr888_bluescreen_def prange_def
  using assms lt4_cases [OF assms(2)]
  by (subst fold_upt_block0 [where s = 4]) (auto simp: nth_list_update_if channel_defs Let_def)

lemma save_bgr888_bluescreen_px:
  assumes "k < unat (width * height)" "c < 3" "3 * k + c < length data"
  shows "save_bgr888_bluescreen pixels data width height ! (3 * k + c) =
         (if pixels ! (4 * k + 3) < 128 then [255, 0, 0] ! c
          else [pixels ! (4 * k + 2), pixels ! (4 * k + 1), pixels ! (4 * k)] ! c)"
  unfolding save_bgr888_bluescreen_def prange_def
  using assms lt3_cases [OF assms(2)]
  by (subst fold_upt_block0 [where s = 3]) (auto simp: nth_list_update_if channel_defs Let_def)

lemma load_rgb888_bluescreen_px:
  assumes "k < unat (width * height)" "c < 4" "4 * k + c < length pixels"
  shows "load_rgb888_bluescreen pixels data width height ! (4 * k + c) =
         (if data ! (3 * k) = 0 \<and> data ! (3 * k + 1) = 0 \<and> data ! (3 * k + 2) = 255 then 0
          else [data ! (3 * k), data ! (3 * k + 1), data ! (3 * k + 2), 255] ! c)"
  unfolding load_rgb888_bluescreen_def prange_def
  using assms lt4_cases [OF assms(2)]
  by (subst fold_upt_block0 [where s = 4]) (auto simp: nth_list_update_if channel_defs Let_def)

lemma save_rgb888_bluescreen_px:
  assumes "k < unat (width * height)" "c < 3" "3 * k + c < length data"
  shows "save_rgb888_bluescreen pixels data width height ! (3 * k + c) =
         (if pixels ! (4 * k + 3) < 128 then [0, 0, 255] ! c
          else [pixels ! (4 * k), pixels ! (4 * k + 1), pixels ! (4 * k + 2)] ! c)"
  unfolding save_rgb888_bluescreen_def prange_def
  using assms lt3_cases [OF assms(2)]
  by (subst fold_upt_block0 [where s = 3]) (auto simp: nth_list_update_if channel_defs Let_def)

text \<open>
  Claim C6.  RGB888_BLUESCREEN and BGR888_BLUESCREEN, for pixel \<open>k\<close> of an image.
  On load, a source pixel that is exactly pure blue (red 0, green 0, blue 255, in the byte
  order of the format) gives the canonical bytes 0, 0, 0, 0, and any other source pixel
  gives its red, green and blue with alpha 255.  On save, a canonical pixel with alpha
  below 128 is written as pure blue in the byte order of the format, and any other pixel
  has its red, green and blue written in that order, without the alpha.  (The canonical
  buffer is smaller than \<open>2 ^ 32\<close> bytes.)
\<close>

theorem bluescreen_load_save:
  assumes size: "4 * (unat width * unat height) < 2 ^ 32"
    and pixels: "length pixels = 4 * (unat width * unat height)"
    and data: "length data = 3 * (unat width * unat height)"
    and k: "k < unat width * unat height"
  shows "map (\<lambda>c. load_rgb888_bluescreen pixels data width height ! (4 * k + c)) [0, 1, 2, 3] =
           (if [data ! (3 * k), data ! (3 * k + 1), data ! (3 * k + 2)] = [0, 0, 255]
            then [0, 0, 0, 0]
            else [data ! (3 * k), data ! (3 * k + 1), data ! (3 * k + 2), 255]) \<and>
         map (\<lambda>c. save_rgb888_bluescreen pixels data width height ! (3 * k + c)) [0, 1, 2] =
           (if pixels ! (4 * k + 3) < 128
            then [0, 0, 255]
            else [pixels ! (4 * k), pixels ! (4 * k + 1), pixels ! (4 * k + 2)]) \<and>
         map (\<lambda>c. load_bgr888_bluescreen pixels data width height ! (4 * k + c)) [0, 1, 2, 3] =
           (if [data ! (3 * k + 2), data ! (3 * k + 1), data ! (3 * k)] = [0, 0, 255]
            then [0, 0, 0, 0]
            else [data ! (3 * k + 2), data ! (3 * k + 1), data ! (3 * k), 255]) \<and>
         map (\<lambda>c. save_bgr888_bluescreen pixels data width height ! (3 * k + c)) [0, 1, 2] =
           (if pixels ! (4 * k + 3) < 128
            then [255, 0, 0]
            else [pixels ! (4 * k + 2), pixels ! (4 * k + 1), pixels ! (4 * k)])"
proof -
  note n = unat_dims(1) [OF size]
  have k': "k < unat (width * height)" using k n by simp
  have L: "\<And>c. c < 4 \<Longrightarrow> 4 * k + c < length pixels" using k pixels by simp
  have S: "\<And>c. c < 3 \<Longrightarrow> 3 * k + c < length data" using k data by simp
  have 1: "map (\<lambda>c. load_rgb888_bluescreen pixels data width height ! (4 * k + c)) [0, 1, 2, 3] =
           (if [data ! (3 * k), data ! (3 * k + 1), data ! (3 * k + 2)] = [0, 0, 255]
            then [0, 0, 0, 0]
            else [data ! (3 * k), data ! (3 * k + 1), data ! (3 * k + 2), 255])"
    using load_rgb888_bluescreen_px [OF k' _ L, of 0 data]
      load_rgb888_bluescreen_px [OF k' _ L, of 1 data]
      load_rgb888_bluescreen_px [OF k' _ L, of 2 data]
      load_rgb888_bluescreen_px [OF k' _ L, of 3 data]
    by simp
  have 2: "map (\<lambda>c. save_rgb888_bluescreen pixels data width height ! (3 * k + c)) [0, 1, 2] =
           (if pixels ! (4 * k + 3) < 128
            then [0, 0, 255]
            else [pixels ! (4 * k), pixels ! (4 * k + 1), pixels ! (4 * k + 2)])"
    using save_rgb888_bluescreen_px [OF k' _ S, of 0 pixels]
      save_rgb888_bluescreen_px [OF k' _ S, of 1 pixels]
      save_rgb888_bluescreen_px [OF k' _ S, of 2 pixels]
    by simp
  have 3: "map (\<lambda>c. load_bgr888_bluescreen pixels data width height ! (4 * k + c)) [0, 1, 2, 3] =
           (if [data ! (3 * k + 2), data ! (3 * k + 1), data ! (3 * k)] = [0, 0, 255]
            then [0, 0, 0, 0]
            else [data ! (3 * k + 2), data ! (3 * k + 1), data ! (3 * k), 255])"
    using load_bgr888_bluescreen_px [OF k' _ L, of 0 data]
      load_bgr888_bluescreen_px [OF k' _ L, of 1 data]
      load_bgr888_bluescreen_px [OF k' _ L, of 2 data]
      load_bgr888_bluescreen_px [OF k' _ L, of 3 data]
    by simp
  have 4: "map (\<lambda>c. save_bgr888_bluescreen pixels data width height ! (3 * k + c)) [0, 1, 2] =
           (if pixels ! (4 * k + 3) < 128
            then [255, 0, 0]
            else [pixels ! (4 * k + 2), pixels ! (4 * k + 1), pixels ! (4 * k)])"
    using save_bgr888_bluescreen_px [OF k' _ S, of 0 pixels]
      save_bgr888_bluescreen_px [OF k' _ S, of 1 pixels]
      save_bgr888_bluescreen_px [OF k' _ S, of 2 pixels]
    by simp
  from 1 2 3 4 show ?thesis by (intro conjI)
qed

theorem bluescreen_load_save_witness:
  "map (\<lambda>c. load_rgb888_bluescreen [9, 9, 9, 9, 9, 9, 9, 9] [0, 0, 255, 0, 0, 254] 2 1 ! c)
      [0, 1, 2, 3, 4, 5, 6, 7] = [0, 0, 0, 0, 0, 0, 254, 255] \<and>
   map (\<lambda>c. save_rgb888_bluescreen [1, 2, 3, 127, 4, 5, 6, 128] [9, 9, 9, 9, 9, 9] 2 1 ! c)
      [0, 1, 2, 3, 4, 5] = [0, 0, 255, 4, 5, 6] \<and>
   map (\<lambda>c. load_bgr888_bluescreen [9, 9, 9, 9, 9, 9, 9, 9] [255, 0, 0, 254, 0, 0] 2 1 ! c)
      [0, 1, 2, 3, 4, 5, 6, 7] = [0, 0, 0, 0, 0, 0, 254, 255] \<and>
   map (\<lambda>c. save_bgr888_bluescreen [1, 2, 3, 127, 4, 5, 6, 128] [9, 9, 9, 9, 9, 9] 2 1 ! c)
      [0, 1, 2, 3, 4, 5] = [255, 0, 0, 6, 5, 4]"
  using bluescreen_load_save [of 2 1 "[9, 9, 9, 9, 9, 9, 9, 9]" "[0, 0, 255, 0, 0, 254]" 0]
    bluescreen_load_save [of 2 1 "[9, 9, 9, 9, 9, 9, 9, 9]" "[0, 0, 255, 0, 0, 254]" 1]
    bluescreen_load_save [of 2 1 "[1, 2, 3, 127, 4, 5, 6, 128]" "[9, 9, 9, 9, 9, 9]" 0]
    bluescreen_load_save [of 2 1 "[1, 2, 3, 127, 4, 5, 6, 128]" "[9, 9, 9, 9, 9, 9]" 1]
    bluescreen_load_save [of 2 1 "[9, 9, 9, 9, 9, 9, 9, 9]" "[255, 0, 0, 254, 0, 0]" 0]
    bluescreen_load_save [of 2 1 "[9, 9, 9, 9, 9, 9, 9, 9]" "[255, 0, 0, 254, 0, 0]" 1]
  by simp

section \<open>PPM emission\<close>

text \<open>The first \<^verbatim>\<open>sprintf\<close> of \<^verbatim>\<open>ppm_convert\<close> has a null destination, on every input.\<close>

lemma ppm_convert_faults:
  "ppm_convert mem composite pixels width height bg = Inl NullPointerWrite"
  by (simp add: ppm_convert_def sprintf_def Let_def)

text \<open>
  Claim C8.  Without a background colour \<^verbatim>\<open>ppm_convert\<close> should return the header
  \<^verbatim>\<open>P6 <W> <H> 255\<close> with its newline, followed by the red, green and blue bytes of
  every pixel.  It measures the header with \<^verbatim>\<open>sprintf(NULL, PPM_HEADER, width, height)\<close>,
  which writes the header through the null pointer, where a call that only measures
  (\<^verbatim>\<open>snprintf(NULL, 0, ...)\<close>) was meant: for a 3 by 2 image it returns no bytes
  at all.
\<close>

theorem ppm_convert_null_sprintf:
  "ppm_convert (\<lambda>i. 0x55) (\<lambda>p a c. 0)
     [1, 2, 3, 4, 5, 6, 7, 8, 9, 10, 11, 12, 13, 14, 15, 16, 17, 18, 19, 20, 21, 22, 23, 24] 3 2 None =
   Inl NullPointerWrite"
  by (simp add: ppm_convert_def sprintf_def Let_def)

section \<open>Bilinear downscaling to half size\<close>

lemma upt_0_4: "[0..<4] = [0, 1, 2, 3]"
  by code_simp

lemma pixel_rows_nth:
  fixes v :: "nat \<Rightarrow> nat \<Rightarrow> nat \<Rightarrow> 'a"
  assumes len: "length dest = 4 * (W * H)" and x: "x < W" and y: "y < H" and c: "c < 4"
  shows "fold (\<lambda>y dest.
           fold (\<lambda>x dest.
              fold (\<lambda>channel dest. dest[4 * (W * y + x) + channel := v y x channel]) [0..<4] dest)
             [0..<W] dest)
          [0..<H] dest ! (4 * (W * y + x) + c) = v y x c"
proof -
  define sx where "sx y x dest =
      fold (\<lambda>channel dest. dest[4 * (W * y + x) + channel := v y x channel]) [0..<4] dest"
    for y x and dest :: "'a list"
  define sy where "sy y dest = fold (sx y) [0..<W] dest" for y and dest :: "'a list"
  have sx: "sx y x dest = dest[4 * W * y + 4 * x := v y x 0, 4 * W * y + 4 * x + 1 := v y x 1,
      4 * W * y + 4 * x + 2 := v y x 2, 4 * W * y + 4 * x + 3 := v y x 3]" for y x dest
    by (simp add: sx_def upt_0_4 algebra_simps)
  have sx_len: "length (sx y x xs) = length xs" for y x xs
    by (simp add: sx)
  have sx_frame: "sx y x xs ! j = xs ! j"
    if "j < length xs" "j < 4 * W * y + 4 * x \<or> 4 * W * y + 4 * x + 4 \<le> j" for y x xs j
    using that by (auto simp: sx nth_list_update_if)
  have sx_loc: "sx y x xs ! j = sx y x ys ! j"
    if "length xs = length ys" "j < length xs" "xs ! j = ys ! j" for y x xs ys j
    using that by (auto simp: sx nth_list_update_if)
  have sy_len: "length (sy y xs) = length xs" for y xs
    unfolding sy_def by (rule fold_upt_length) (rule sx_len)
  have sy_frame: "sy y xs ! j = xs ! j"
    if "j < length xs" "j < 0 + 4 * W * y \<or> 0 + 4 * W * y + 4 * W \<le> j" for y xs j
    unfolding sy_def
  proof (rule fold_upt_outside [where b = "4 * W * y" and s = 4])
    show "length (sx y k xs) = length xs" for k xs by (rule sx_len)
    show "sx y k xs ! j = xs ! j"
      if "j < length xs" "j < 4 * W * y + 4 * k \<or> 4 * W * y + 4 * k + 4 \<le> j" for k xs j
      using that by (rule sx_frame)
    show "j < length xs" by fact
    show "j < 4 * W * y \<or> 4 * W * y + 4 * W \<le> j" using that(2) by simp
  qed
  have sy_loc: "sy y xs ! j = sy y ys ! j"
    if "length xs = length ys" "j < length xs" "xs ! j = ys ! j" for y xs ys j
    unfolding sy_def
  proof (rule fold_upt_local)
    show "length (sx y k xs) = length xs" for k xs by (rule sx_len)
    show "sx y k xs ! j = sx y k ys ! j"
      if "length xs = length ys" "j < length xs" "xs ! j = ys ! j" for k xs ys
      using that by (rule sx_loc)
  qed fact+
  have "(y + 1) * (4 * W) \<le> H * (4 * W)"
    using y by (intro mult_le_mono1) simp
  then have bound: "4 * W * y + 4 * x + c < length dest"
    using x c len by (simp add: algebra_simps)
  have "fold sy [0..<H] dest ! (0 + 4 * W * y + (4 * x + c)) = sy y dest ! (0 + 4 * W * y + (4 * x + c))"
  proof (rule fold_upt_block)
    show "length (sy k xs) = length xs" for k xs by (rule sy_len)
    show "sy k xs ! j = xs ! j"
      if "j < length xs" "j < 0 + 4 * W * k \<or> 0 + 4 * W * k + 4 * W \<le> j" for k xs j
      using that by (rule sy_frame)
    show "sy k xs ! j = sy k ys ! j"
      if "length xs = length ys" "j < length xs" "xs ! j = ys ! j" for k xs ys j
      using that by (rule sy_loc)
    show "y < H" by fact
    show "4 * x + c < 4 * W" using x c by simp
    show "0 + 4 * W * y + (4 * x + c) < length dest" using bound by simp
  qed
  also have "\<dots> = fold (sx y) [0..<W] dest ! (4 * W * y + 4 * x + c)"
    by (simp add: sy_def add.assoc)
  also have "\<dots> = sx y x dest ! (4 * W * y + 4 * x + c)"
  proof (rule fold_upt_block)
    show "length (sx y k xs) = length xs" for k xs by (rule sx_len)
    show "sx y k xs ! j = xs ! j"
      if "j < length xs" "j < 4 * W * y + 4 * k \<or> 4 * W * y + 4 * k + 4 \<le> j" for k xs j
      using that by (rule sx_frame)
    show "sx y k xs ! j = sx y k ys ! j"
      if "length xs = length ys" "j < length xs" "xs ! j = ys ! j" for k xs ys j
      using that by (rule sx_loc)
  qed fact+
  also have "\<dots> = v y x c"
    using lt4_cases [OF c] bound by (auto simp: sx nth_list_update_if)
  finally have "fold sy [0..<H] dest ! (4 * (W * y + x) + c) = v y x c"
    by (simp add: algebra_simps)
  then show ?thesis
    by (simp only: sy_def [abs_def] sx_def [abs_def])
qed


lemma pixel_rows_length:
  "length (fold (\<lambda>y dest.
           fold (\<lambda>x dest.
              fold (\<lambda>channel dest. dest[4 * (W * y + x) + channel := v y x channel]) [0..<4] dest)
             [0..<W] dest)
          [0..<H] dest) = length dest"
  by (intro fold_upt_length) simp

text \<open>
  Claim C7.  When the destination has exactly half the width and half the height of the
  source, \<^verbatim>\<open>scale_down\<close> with the bilinear filter (value 4) returns normally and
  writes, at channel \<open>c\<close> of the output pixel \<open>(x, y)\<close>, the sum of that channel over
  the source pixels \<open>(2x, 2y)\<close>, \<open>(2x + 1, 2y)\<close>, \<open>(2x, 2y + 1)\<close> and
  \<open>(2x + 1, 2y + 1)\<close>, divided by 4 and rounded down.
\<close>

theorem scale_down_bilinear_half:
  fixes width height src_width src_height :: uint
  assumes w: "unat src_width = 2 * unat width" and h: "unat src_height = 2 * unat height"
    and src: "length src = 4 * (unat src_width * unat src_height)"
    and dest: "length dest = 4 * (unat width * unat height)"
    and x: "x < unat width" and y: "y < unat height" and c: "c < 4"
  shows "\<exists>out. scale_down 4 src_width src_height width height src dest = Inr out \<and>
           length out = length dest \<and>
           out ! (4 * (unat width * y + x) + c) = of_nat
             ((unat (src ! (4 * (unat src_width * (2 * y) + 2 * x) + c)) +
               unat (src ! (4 * (unat src_width * (2 * y) + (2 * x + 1)) + c)) +
               unat (src ! (4 * (unat src_width * (2 * y + 1) + 2 * x) + c)) +
               unat (src ! (4 * (unat src_width * (2 * y + 1) + (2 * x + 1)) + c))) div 4)"
proof -
  let ?W = "unat width"
  let ?H = "unat height"
  let ?v = "\<lambda>y x channel. (of_nat
              ((unat (src ! (4 * (2 * 2 * ?W * y + 2 * x) + channel)) +
                unat (src ! (4 * (2 * 2 * ?W * y + 2 * x) + channel + 4)) +
                unat (src ! (4 * (2 * 2 * ?W * y + 2 * x) + channel + 4 * 2 * ?W)) +
                unat (src ! (4 * (2 * 2 * ?W * y + 2 * x) + channel + 4 * 2 * ?W + 4))) div 4) :: byte)"
  let ?out = "fold (\<lambda>y dest.
           fold (\<lambda>x dest.
              fold (\<lambda>channel dest. dest[4 * (?W * y + x) + channel := ?v y x channel]) [0..<4] dest)
             [0..<?W] dest)
          [0..<?H] dest"
  have "width \<noteq> src_width" using w x by auto
  moreover have "height \<noteq> src_height" using h y by auto
  ultimately have eq: "scale_down 4 src_width src_height width height src dest = Inr ?out"
    by (simp add: scale_down_def c_int_range_def Let_def prange_def)
  have len: "length ?out = length dest"
    by (rule pixel_rows_length)
  have val: "?out ! (4 * (?W * y + x) + c) = ?v y x c"
    using dest x y c by (rule pixel_rows_nth)
  have i: "4 * (2 * 2 * ?W * y + 2 * x) + c = 4 * (unat src_width * (2 * y) + 2 * x) + c"
    "4 * (unat src_width * (2 * y) + 2 * x) + c + 4 =
       4 * (unat src_width * (2 * y) + (2 * x + 1)) + c"
    "4 * (unat src_width * (2 * y) + 2 * x) + c + 4 * 2 * ?W =
       4 * (unat src_width * (2 * y + 1) + 2 * x) + c"
    "4 * (unat src_width * (2 * y + 1) + 2 * x) + c + 4 =
       4 * (unat src_width * (2 * y + 1) + (2 * x + 1)) + c"
    by (simp_all add: w algebra_simps)
  from val have "?out ! (4 * (?W * y + x) + c) = of_nat
             ((unat (src ! (4 * (unat src_width * (2 * y) + 2 * x) + c)) +
               unat (src ! (4 * (unat src_width * (2 * y) + (2 * x + 1)) + c)) +
               unat (src ! (4 * (unat src_width * (2 * y + 1) + 2 * x) + c)) +
               unat (src ! (4 * (unat src_width * (2 * y + 1) + (2 * x + 1)) + c))) div 4)"
    by (simp only: i)
  with eq len show ?thesis by blast
qed

theorem scale_down_bilinear_half_witness:
  "\<exists>out. scale_down 4 2 2 1 1
            [10, 20, 30, 40,  30, 40, 50, 60,  50, 60, 70, 80,  70, 80, 90, 103] [0, 0, 0, 0] = Inr out \<and>
     length out = 4 \<and> out ! 0 = 40 \<and> out ! 3 = 70"
proof -
  let ?src = "[10, 20, 30, 40,  30, 40, 50, 60,  50, 60, 70, 80,  70, 80, 90, 103] :: byte list"
  let ?dest = "[0, 0, 0, 0] :: byte list"
  have w: "unat (2 :: uint) = 2 * unat (1 :: uint)" by simp
  have src: "length ?src = 4 * (unat (2 :: uint) * unat (2 :: uint))" by simp
  have dest: "length ?dest = 4 * (unat (1 :: uint) * unat (1 :: uint))" by simp
  have x: "0 < unat (1 :: uint)" by simp
  note px = scale_down_bilinear_half [OF w w src dest x x]
  from px [of 0] px [of 3] show ?thesis by auto
qed

end
